theory Spec2Isabelle
  imports Main "HOL-Library.AList" "HOL-Library.Sublist"
begin

section \<open>Python values used by the appraisal tool\<close>

text \<open>
  The two programs of the repository are \<^verbatim>\<open>appraisal_tool_v0.4.1.py\<close> (the class
  \<^verbatim>\<open>App\<close>) and \<^verbatim>\<open>appraisal_tool_stage2_presets_help.py\<close> (module-level functions and
  globals). Both are Tk front ends; what is modelled here is the state they keep and the
  way their callbacks change it.

  A Python \<^verbatim>\<open>str\<close> is modelled by its UTF-8 encoding, a \<^typ>\<open>string\<close>. Equality,
  emptiness, concatenation and the test \<^verbatim>\<open>sub in s\<close> of two strings are the same on the
  encodings as on the strings. \<^verbatim>\<open>str.strip\<close> and \<^verbatim>\<open>str.lower\<close> follow the Unicode
  character tables; they are the library's and are parameters of the callbacks that call
  them, named \<open>strip\<close> and \<open>lower\<close>.
\<close>

text \<open>\<^verbatim>\<open>sub in s\<close> on two strings: \<^verbatim>\<open>sub\<close> occurs in \<^verbatim>\<open>s\<close> as a contiguous run.\<close>

fun str_in :: "string \<Rightarrow> string \<Rightarrow> bool" where
  "str_in sub [] = (sub = [])"
| "str_in sub (c # cs) = (take (length sub) (c # cs) = sub \<or> str_in sub cs)"

text \<open>\<^verbatim>\<open>sep.join(xs)\<close>.\<close>

fun join :: "string \<Rightarrow> string list \<Rightarrow> string" where
  "join sep [] = []"
| "join sep [x] = x"
| "join sep (x # y # ys) = x @ sep @ join sep (y # ys)"

text \<open>
  What \<^verbatim>\<open>str.strip\<close> and \<^verbatim>\<open>str.lower\<close> do on ASCII text, for the examples: on a
  string of ASCII characters \<^verbatim>\<open>strip\<close> removes the leading and trailing characters among
  tab, line feed, vertical tab, form feed, carriage return, the four separators 0x1C..0x1F
  and the blank, and \<^verbatim>\<open>lower\<close> maps \<^verbatim>\<open>A..Z\<close> to \<^verbatim>\<open>a..z\<close>.
\<close>

definition ascii_isspace :: "char \<Rightarrow> bool" where
  "ascii_isspace c = (c \<in> set [CHR 0x09, CHR 0x0A, CHR 0x0B, CHR 0x0C, CHR 0x0D,
                                 CHR 0x1C, CHR 0x1D, CHR 0x1E, CHR 0x1F, CHR 0x20])"

definition ascii_strip :: "string \<Rightarrow> string" where
  "ascii_strip s = rev (dropWhile ascii_isspace (rev (dropWhile ascii_isspace s)))"

definition ascii_lower_char :: "char \<Rightarrow> char" where
  "ascii_lower_char c =
     (let n = (of_char c :: nat) in if 65 \<le> n \<and> n \<le> 90 then char_of (n + 32) else c)"

definition ascii_lower :: "string \<Rightarrow> string" where
  "ascii_lower s = map ascii_lower_char s"

text \<open>
  A Python \<^verbatim>\<open>dict\<close> keeps its keys in insertion order and holds each key once. It is an
  association list: \<^verbatim>\<open>d[k] = v\<close> replaces the value of a key already present where it
  stands and appends a new key at the end, which is \<^const>\<open>AList.update\<close>;
  \<^verbatim>\<open>d.get(k)\<close> is \<^const>\<open>map_of\<close>; \<^verbatim>\<open>d.items()\<close> is the list itself.
\<close>

type_synonym ('k, 'v) dict = "('k \<times> 'v) list"

definition dict_get :: "('k, 'v) dict \<Rightarrow> 'k \<Rightarrow> 'v option" where
  "dict_get d k = map_of d k"

definition dict_set :: "('k, 'v) dict \<Rightarrow> 'k \<Rightarrow> 'v \<Rightarrow> ('k, 'v) dict" where
  "dict_set d k v = AList.update k v d"

definition dict_has :: "'k \<Rightarrow> ('k, 'v) dict \<Rightarrow> bool" where
  "dict_has k d = (dict_get d k \<noteq> None)"

definition dict_keys :: "('k, 'v) dict \<Rightarrow> 'k list" where
  "dict_keys d = map fst d"

text \<open>\<^verbatim>\<open>dict(pairs)\<close> and a dict comprehension: the pairs are stored one after the other.\<close>

definition dict_of :: "('k \<times> 'v) list \<Rightarrow> ('k, 'v) dict" where
  "dict_of kvs = foldl (\<lambda>d (k, v). dict_set d k v) [] kvs"

text \<open>Truthiness of a value that is \<^verbatim>\<open>None\<close> or a string: \<^verbatim>\<open>not x\<close>.\<close>

fun falsy :: "string option \<Rightarrow> bool" where
  "falsy None = True"
| "falsy (Some s) = (s = [])"

text \<open>
  The exceptions that occur. \<^verbatim>\<open>OSError\<close> stands for every failure of \<^verbatim>\<open>open\<close> or of
  writing (a missing file, a directory, no permission, a full disk).
\<close>

datatype exn =
    OSError
  | UnicodeDecodeError
  | JSONDecodeError
  | CsvError
  | KeyError "string option"
  | AttributeError
  | TypeError

text \<open>
  How a callback ends: it returns, or an exception leaves it. Either way the state is what
  the assignments made so far have left (Tk reports the exception of a callback and goes on).
\<close>

datatype 's outcome = Done 's | Raises exn 's

fun state_of :: "'s outcome \<Rightarrow> 's" where
  "state_of (Done s) = s"
| "state_of (Raises e s) = s"

fun returned :: "'s outcome \<Rightarrow> bool" where
  "returned (Done s) = True"
| "returned (Raises e s) = False"

section \<open>JSON values\<close>

text \<open>
  A JSON document, as \<^verbatim>\<open>json.load\<close> returns it and \<^verbatim>\<open>json.dump\<close> takes it (numbers
  are kept to the integers; the documents of the tool hold none). An object is the
  \<^verbatim>\<open>dict\<close> that \<^verbatim>\<open>json.load\<close> built. The attributes \<^verbatim>\<open>presets\<close>, \<^verbatim>\<open>headers_map\<close> and
  \<^verbatim>\<open>custom_fields\<close> hold whatever \<^verbatim>\<open>json.load\<close> returned, so they are JSON values too.
\<close>

datatype json =
    JNull
  | JBool bool
  | JInt int
  | JStr string
  | JArr "json list"
  | JObj "(string \<times> json) list"

text \<open>
  A dict of strings and a list of such dicts as JSON values: what \<^verbatim>\<open>json.dump\<close> writes
  for them.
\<close>

definition json_of_strs :: "(string, string) dict \<Rightarrow> json" where
  "json_of_strs d = JObj (map (\<lambda>(k, v). (k, JStr v)) d)"

definition json_of_rows :: "(string, string) dict list \<Rightarrow> json" where
  "json_of_rows rows = JArr (map json_of_strs rows)"

text \<open>
  The operations the callbacks apply to a loaded value, with what Python does when the
  value is not a dict.
  \<^verbatim>\<open>d.get(k, default)\<close>: only a dict has \<^verbatim>\<open>get\<close>.
\<close>

fun py_get :: "json \<Rightarrow> string \<Rightarrow> json \<Rightarrow> exn + json" where
  "py_get (JObj kvs) k dflt = Inr (case map_of kvs k of None \<Rightarrow> dflt | Some v \<Rightarrow> v)"
| "py_get JNull k dflt = Inl AttributeError"
| "py_get (JBool b) k dflt = Inl AttributeError"
| "py_get (JInt i) k dflt = Inl AttributeError"
| "py_get (JStr s) k dflt = Inl AttributeError"
| "py_get (JArr xs) k dflt = Inl AttributeError"

text \<open>
  \<^verbatim>\<open>k in d\<close> for a string \<^verbatim>\<open>k\<close>: a key of a dict, an element of a list, a substring of
  a string; \<^verbatim>\<open>None\<close>, a boolean and a number are not iterable.
\<close>

fun py_contains :: "string \<Rightarrow> json \<Rightarrow> exn + bool" where
  "py_contains k (JObj kvs) = Inr (map_of kvs k \<noteq> None)"
| "py_contains k (JArr xs) = Inr (JStr k \<in> set xs)"
| "py_contains k (JStr s) = Inr (str_in k s)"
| "py_contains k JNull = Inl TypeError"
| "py_contains k (JBool b) = Inl TypeError"
| "py_contains k (JInt i) = Inl TypeError"

text \<open>\<^verbatim>\<open>d[k]\<close> for a string \<^verbatim>\<open>k\<close>: a list and a string take integer indices only.\<close>

fun py_getitem :: "json \<Rightarrow> string \<Rightarrow> exn + json" where
  "py_getitem (JObj kvs) k =
     (case map_of kvs k of None \<Rightarrow> Inl (KeyError (Some k)) | Some v \<Rightarrow> Inr v)"
| "py_getitem (JArr xs) k = Inl TypeError"
| "py_getitem (JStr s) k = Inl TypeError"
| "py_getitem JNull k = Inl TypeError"
| "py_getitem (JBool b) k = Inl TypeError"
| "py_getitem (JInt i) k = Inl TypeError"

text \<open>\<^verbatim>\<open>d[k] = v\<close> for a string \<^verbatim>\<open>k\<close>.\<close>

fun py_setitem :: "json \<Rightarrow> string \<Rightarrow> json \<Rightarrow> exn + json" where
  "py_setitem (JObj kvs) k v = Inr (JObj (AList.update k v kvs))"
| "py_setitem (JArr xs) k v = Inl TypeError"
| "py_setitem (JStr s) k v = Inl TypeError"
| "py_setitem JNull k v = Inl TypeError"
| "py_setitem (JBool b) k v = Inl TypeError"
| "py_setitem (JInt i) k v = Inl TypeError"

text \<open>
  The structure the data model gives the presets: an object whose values are objects whose
  values are strings.
\<close>

fun is_str :: "json \<Rightarrow> bool" where
  "is_str (JStr s) = True"
| "is_str JNull = False"
| "is_str (JBool b) = False"
| "is_str (JInt i) = False"
| "is_str (JArr xs) = False"
| "is_str (JObj kvs) = False"

fun is_preset_set :: "json \<Rightarrow> bool" where
  "is_preset_set (JObj kvs) = list_all (\<lambda>kv. is_str (snd kv)) kvs"
| "is_preset_set JNull = False"
| "is_preset_set (JBool b) = False"
| "is_preset_set (JInt i) = False"
| "is_preset_set (JStr s) = False"
| "is_preset_set (JArr xs) = False"

fun is_presets :: "json \<Rightarrow> bool" where
  "is_presets (JObj kvs) = list_all (\<lambda>kv. is_preset_set (snd kv)) kvs"
| "is_presets JNull = False"
| "is_presets (JBool b) = False"
| "is_presets (JInt i) = False"
| "is_presets (JStr s) = False"
| "is_presets (JArr xs) = False"

text \<open>
  The value stored for a field under a preset name, in presets of that structure:
  \<^verbatim>\<open>presets.get(name, {})\<close> looked up at the field.
\<close>

fun str_value :: "json option \<Rightarrow> string option" where
  "str_value (Some (JStr s)) = Some s"
| "str_value (Some JNull) = None"
| "str_value (Some (JBool b)) = None"
| "str_value (Some (JInt i)) = None"
| "str_value (Some (JArr xs)) = None"
| "str_value (Some (JObj kvs)) = None"
| "str_value None = None"

fun fields_of :: "json option \<Rightarrow> (string \<times> json) list" where
  "fields_of (Some (JObj kvs)) = kvs"
| "fields_of (Some JNull) = []"
| "fields_of (Some (JBool b)) = []"
| "fields_of (Some (JInt i)) = []"
| "fields_of (Some (JStr s)) = []"
| "fields_of (Some (JArr xs)) = []"
| "fields_of None = []"

definition stored_value :: "json \<Rightarrow> string \<Rightarrow> string \<Rightarrow> string option" where
  "stored_value ps name field = str_value (map_of (fields_of (map_of (fields_of (Some ps)) name)) field)"

section \<open>The world outside the process: files and dialogs\<close>

text \<open>
  A file as \<^verbatim>\<open>open(path, "r", encoding="utf-8")\<close> followed by \<^verbatim>\<open>json.load\<close> sees it:
  absent, present but not to be opened, text that \<^verbatim>\<open>json.load\<close> rejects (bytes that are
  not UTF-8, or not JSON, an empty or a partly written file among them), or the text of a
  JSON document. A document that \<^verbatim>\<open>json.dump\<close> wrote is read back by \<^verbatim>\<open>json.load\<close> as
  the same document, so the file is modelled as holding the document.
\<close>

datatype disk_file = Absent | Unopenable | Garbage | Doc json

text \<open>
  What happens when a path is written with \<^verbatim>\<open>open(path, "w")\<close> and \<^verbatim>\<open>json.dump\<close>: the
  document is written; or \<^verbatim>\<open>open\<close> raises and the file is as before; or \<^verbatim>\<open>open\<close> has
  truncated the file and the writing raises (a full disk), which leaves an empty or partly
  written file.
\<close>

datatype write_outcome = WriteOk | OpenFails | WriteFails

text \<open>
  A message box of \<^verbatim>\<open>tkinter.messagebox\<close>: its kind, its title and its message. Where
  the message quotes the text of an exception, the model keeps the fixed part.
\<close>

datatype dialog =
    ShowInfo string string
  | ShowWarning string string
  | ShowError string exn

text \<open>
  The world: the JSON files by path, what writing each path does, the CSV files by path
  (the exception \<^verbatim>\<open>open\<close> raises, or the bytes of the file), and the message boxes shown
  so far, oldest first.
\<close>

record world =
  file_at :: "string \<Rightarrow> disk_file"
  write_at :: "string \<Rightarrow> write_outcome"
  csv_at :: "string \<Rightarrow> exn + string"
  dialogs :: "dialog list"

definition show_dialog :: "dialog \<Rightarrow> world \<Rightarrow> world" where
  "show_dialog d w = w\<lparr>dialogs := dialogs w @ [d]\<rparr>"

subsection \<open>Persistence file names\<close>

definition PRESETS_FILE :: string where "PRESETS_FILE = ''presets.json''"
definition HEADERS_MAP_FILE :: string where "HEADERS_MAP_FILE = ''headers_map.json''"
definition CUSTOM_FIELDS_FILE :: string where "CUSTOM_FIELDS_FILE = ''custom_fields.json''"
definition CONFIG_FILE :: string where "CONFIG_FILE = ''presets.json''"

subsection \<open>\<^verbatim>\<open>load_json\<close> and \<^verbatim>\<open>save_json\<close> (v0.4.1)\<close>

text \<open>
  \<^verbatim>\<open>
  def load_json(path, default):
      try:
          with open(path, "r", encoding="utf-8") as f:
              return json.load(f)
      except Exception:
          return default
  \<close>
\<close>

definition load_json :: "world \<Rightarrow> string \<Rightarrow> json \<Rightarrow> json" where
  "load_json w path dflt =
     (case file_at w path of
        Doc d \<Rightarrow> d
      | Absent \<Rightarrow> dflt
      | Unopenable \<Rightarrow> dflt
      | Garbage \<Rightarrow> dflt)"

text \<open>
  \<^verbatim>\<open>
  def save_json(path, data):
      try:
          with open(path, "w", encoding="utf-8") as f:
              json.dump(data, f, indent=2)
      except Exception as e:
          messagebox.showwarning("Save Error", f"Could not save to {path}\n{e}")
  \<close>
  The data the tool saves is always serialisable, so what can raise is \<^verbatim>\<open>open\<close> or the
  writing.
\<close>

definition save_json :: "string \<Rightarrow> json \<Rightarrow> world \<Rightarrow> world" where
  "save_json path data w =
     (case write_at w path of
        WriteOk \<Rightarrow> w\<lparr>file_at := (file_at w)(path := Doc data)\<rparr>
      | OpenFails \<Rightarrow> show_dialog (ShowWarning ''Save Error'' (''Could not save to '' @ path)) w
      | WriteFails \<Rightarrow>
          show_dialog (ShowWarning ''Save Error'' (''Could not save to '' @ path))
            (w\<lparr>file_at := (file_at w)(path := Garbage)\<rparr>))"

subsection \<open>\<^verbatim>\<open>load_presets\<close> and \<^verbatim>\<open>save_presets\<close> (stage 2)\<close>

definition DEFAULT_PRESETS :: json where
  "DEFAULT_PRESETS =
     JObj [(''Q1'', JObj []), (''Q2'', JObj []), (''Q3'', JObj []), (''Q4'', JObj []),
           (''Q5'', JObj [])]"

text \<open>
  \<^verbatim>\<open>
  def load_presets():
      try:
          with open(CONFIG_FILE, "r", encoding="utf-8") as f:
              return json.load(f)
      except Exception:
          return {"Q1": {}, "Q2": {}, "Q3": {}, "Q4": {}, "Q5": {}}

  def save_presets(presets):
      try:
          with open(CONFIG_FILE, "w", encoding="utf-8") as f:
              json.dump(presets, f, indent=2)
      except Exception:
          pass
  \<close>
\<close>

definition load_presets :: "world \<Rightarrow> json" where
  "load_presets w =
     (case file_at w CONFIG_FILE of
        Doc d \<Rightarrow> d
      | Absent \<Rightarrow> DEFAULT_PRESETS
      | Unopenable \<Rightarrow> DEFAULT_PRESETS
      | Garbage \<Rightarrow> DEFAULT_PRESETS)"

definition save_presets :: "json \<Rightarrow> world \<Rightarrow> world" where
  "save_presets data w =
     (case write_at w CONFIG_FILE of
        WriteOk \<Rightarrow> w\<lparr>file_at := (file_at w)(CONFIG_FILE := Doc data)\<rparr>
      | OpenFails \<Rightarrow> w
      | WriteFails \<Rightarrow> w\<lparr>file_at := (file_at w)(CONFIG_FILE := Garbage)\<rparr>)"

section \<open>Widgets\<close>

text \<open>
  A \<^verbatim>\<open>tk.Entry\<close> is the text it shows: \<^verbatim>\<open>entry.get()\<close> is the text,
  \<^verbatim>\<open>entry.delete(0, tk.END)\<close> empties it, \<^verbatim>\<open>entry.insert(0, v)\<close> puts \<^verbatim>\<open>v\<close> in front.
\<close>

definition entry_delete_all :: "string \<Rightarrow> string" where
  "entry_delete_all t = []"

definition entry_insert0 :: "string \<Rightarrow> string \<Rightarrow> string" where
  "entry_insert0 v t = v @ t"

datatype relief = RAISED | SUNKEN

text \<open>A preset button of v0.4.1: its relief and its border width.\<close>

record button =
  btn_relief :: relief
  btn_bd :: nat

text \<open>A \<^verbatim>\<open>ttk.Combobox\<close>: the text typed into it and the values of its drop-down list.\<close>

record combobox =
  combo_text :: string
  combo_values :: "string list"

text \<open>
  The text that a stored value puts into an entry. A string is inserted as it is. What
  becomes of a value that is not a string (Tk's conversion of the Python object in v0.4.1,
  which may raise; \<^verbatim>\<open>str(value)\<close> in stage 2) is the library's: \<open>conv\<close>, a parameter.
\<close>

fun value_text :: "(json \<Rightarrow> exn + string) \<Rightarrow> json \<Rightarrow> exn + string" where
  "value_text conv (JStr s) = Inr s"
| "value_text conv JNull = conv JNull"
| "value_text conv (JBool b) = conv (JBool b)"
| "value_text conv (JInt i) = conv (JInt i)"
| "value_text conv (JArr xs) = conv (JArr xs)"
| "value_text conv (JObj kvs) = conv (JObj kvs)"

text \<open>
  The loop of both \<^verbatim>\<open>_apply_preset\<close> and \<^verbatim>\<open>apply_preset\<close> over the entries:
  \<^verbatim>\<open>
  for field, entry in entries.items():
      entry.delete(0, tk.END)
      if field in data:
          entry.insert(0, data[field])        # stage 2: str(data[field])
  \<close>
  When a step raises, the entries before it are filled, the entry of the step is emptied
  and the ones after it are as they were.
\<close>

fun push :: "'a \<Rightarrow> 'a list outcome \<Rightarrow> 'a list outcome" where
  "push x (Done xs) = Done (x # xs)"
| "push x (Raises e xs) = Raises e (x # xs)"

fun fill_entries ::
  "(json \<Rightarrow> exn + string) \<Rightarrow> json \<Rightarrow> (string, string) dict \<Rightarrow> (string, string) dict outcome" where
  "fill_entries conv data [] = Done []"
| "fill_entries conv data ((field, entry) # rest) =
     (case py_contains field data of
        Inl e \<Rightarrow> Raises e ((field, entry_delete_all entry) # rest)
      | Inr present \<Rightarrow>
          if present then
            (case py_getitem data field of
               Inl e \<Rightarrow> Raises e ((field, entry_delete_all entry) # rest)
             | Inr v \<Rightarrow>
                 (case value_text conv v of
                    Inl e \<Rightarrow> Raises e ((field, entry_delete_all entry) # rest)
                  | Inr s \<Rightarrow>
                      push (field, entry_insert0 s (entry_delete_all entry))
                        (fill_entries conv data rest)))
          else push (field, entry_delete_all entry) (fill_entries conv data rest))"

section \<open>The class \<^verbatim>\<open>App\<close> of v0.4.1\<close>

text \<open>
  The attributes of \<^verbatim>\<open>App\<close> that the preset and header-mapping callbacks read or write.
  \<^verbatim>\<open>presets\<close>, \<^verbatim>\<open>headers_map\<close> and \<^verbatim>\<open>custom_fields\<close> are set from \<^verbatim>\<open>load_json\<close> when
  the program starts. \<^verbatim>\<open>adjustment_entries\<close> maps a field to its entry (the text shown),
  \<^verbatim>\<open>_mapper_widgets\<close> maps a field to its combobox (the text typed), and
  \<^verbatim>\<open>_custom_widgets\<close> is the list of pairs (name entry, header combobox) of the open
  header mapper.
\<close>

record App =
  presets :: json
  headers_map :: json
  custom_fields :: json
  active_preset :: "string option"
  adjustment_entries :: "(string, string) dict"
  preset_buttons :: "(string, button) dict"
  cached_headers :: "string list"
  headers_samples :: "(string, string list) dict"
  mapper_widgets :: "(string, string) dict"
  custom_widgets :: "(string \<times> string) list"

subsection \<open>Presets\<close>

text \<open>
  \<^verbatim>\<open>
  def _apply_preset(self, name):
      data = self.presets.get(name, {})
      for field, entry in self.adjustment_entries.items():
          entry.delete(0, tk.END)
          if field in data:
              entry.insert(0, data[field])
      for q, btn in self.preset_buttons.items():
          btn.config(relief="raised", bd=1)
      self.preset_buttons[name].config(relief="sunken", fg="black", bd=3)
      self.active_preset = name
  \<close>
\<close>

definition raise_button :: "button \<Rightarrow> button" where
  "raise_button b = b\<lparr>btn_relief := RAISED, btn_bd := 1\<rparr>"

definition sink_button :: "button \<Rightarrow> button" where
  "sink_button b = b\<lparr>btn_relief := SUNKEN, btn_bd := 3\<rparr>"

definition App_apply_preset :: "(json \<Rightarrow> exn + string) \<Rightarrow> string \<Rightarrow> App \<Rightarrow> App outcome" where
  "App_apply_preset conv name a =
     (case py_get (presets a) name (JObj []) of
        Inl e \<Rightarrow> Raises e a
      | Inr data \<Rightarrow>
          (case fill_entries conv data (adjustment_entries a) of
             Raises e entries \<Rightarrow> Raises e (a\<lparr>adjustment_entries := entries\<rparr>)
           | Done entries \<Rightarrow>
               (let a1 = a\<lparr>adjustment_entries := entries\<rparr>;
                    a2 = a1\<lparr>preset_buttons :=
                              map (\<lambda>(q, btn). (q, raise_button btn)) (preset_buttons a1)\<rparr>
                in case dict_get (preset_buttons a2) name of
                     None \<Rightarrow> Raises (KeyError (Some name)) a2
                   | Some btn \<Rightarrow>
                       Done (a2\<lparr>preset_buttons :=
                                   dict_set (preset_buttons a2) name (sink_button btn),
                                 active_preset := Some name\<rparr>))))"

text \<open>
  \<^verbatim>\<open>
  def _save_preset(self):
      if not self.active_preset:
          messagebox.showinfo("Save Preset", "Select a Q button first.")
          return
      data = {}
      for field, entry in self.adjustment_entries.items():
          data[field] = entry.get()
      self.presets[self.active_preset] = data
      save_json(PRESETS_FILE, self.presets)
      messagebox.showinfo("Preset Saved", f"{self.active_preset} saved.")
  \<close>
\<close>

definition App_collect :: "(string, string) dict \<Rightarrow> (string, string) dict" where
  "App_collect entries = foldl (\<lambda>data (field, entry). dict_set data field entry) [] entries"

definition App_save_preset :: "App \<times> world \<Rightarrow> (App \<times> world) outcome" where
  "App_save_preset aw =
     (case aw of (a, w) \<Rightarrow>
        (case active_preset a of
           None \<Rightarrow> Done (a, show_dialog (ShowInfo ''Save Preset'' ''Select a Q button first.'') w)
         | Some name \<Rightarrow>
             if name = [] then
               Done (a, show_dialog (ShowInfo ''Save Preset'' ''Select a Q button first.'') w)
             else
               (let data = App_collect (adjustment_entries a) in
                case py_setitem (presets a) name (json_of_strs data) of
                  Inl e \<Rightarrow> Raises e (a, w)
                | Inr ps \<Rightarrow>
                    (let a1 = a\<lparr>presets := ps\<rparr>;
                         w1 = save_json PRESETS_FILE (presets a1) w
                     in Done (a1, show_dialog (ShowInfo ''Preset Saved'' (name @ '' saved.'')) w1)))))"

text \<open>
  \<^verbatim>\<open>
  def _clear_adjustments(self):
      for entry in self.adjustment_entries.values():
          entry.delete(0, tk.END)
      if self.active_preset:
          self.preset_buttons[self.active_preset].config(relief="raised", bd=1)
          self.active_preset = None
  \<close>
\<close>

definition App_clear_adjustments :: "App \<Rightarrow> App outcome" where
  "App_clear_adjustments a =
     (let a1 = a\<lparr>adjustment_entries :=
                   map (\<lambda>(field, entry). (field, entry_delete_all entry)) (adjustment_entries a)\<rparr>
      in if falsy (active_preset a1) then Done a1
         else (case active_preset a1 of
                 None \<Rightarrow> Done a1
               | Some name \<Rightarrow>
                   (case dict_get (preset_buttons a1) name of
                      None \<Rightarrow> Raises (KeyError (Some name)) a1
                    | Some btn \<Rightarrow>
                        Done (a1\<lparr>preset_buttons :=
                                     dict_set (preset_buttons a1) name (raise_button btn),
                                  active_preset := None\<rparr>))))"

subsection \<open>The header mapper\<close>

text \<open>
  \<^verbatim>\<open>
  def save_all():
      final_map = {}
      for field, combo in self._mapper_widgets.items():
          if isinstance(combo, ttk.Combobox):
              final_map[field] = combo.get().strip()
      save_json(HEADERS_MAP_FILE, final_map)
      self.headers_map = final_map

      new_custom_fields = []
      for n_entry, c_combo in self._custom_widgets:
          name = n_entry.get().strip()
          header = c_combo.get().strip()
          if name:
              new_custom_fields.append({"name": name, "header": header})
      save_json(CUSTOM_FIELDS_FILE, new_custom_fields)
      self.custom_fields = new_custom_fields

      messagebox.showinfo("Saved", "Headers and custom fields saved.")
      win.destroy()
  \<close>
  Every value of \<^verbatim>\<open>_mapper_widgets\<close> is a combobox, so the \<^verbatim>\<open>isinstance\<close> test holds.
\<close>

definition collect_map :: "(string \<Rightarrow> string) \<Rightarrow> (string, string) dict \<Rightarrow> (string, string) dict" where
  "collect_map strip widgets =
     foldl (\<lambda>final_map (field, combo). dict_set final_map field (strip combo)) [] widgets"

fun collect_custom ::
  "(string \<Rightarrow> string) \<Rightarrow> (string \<times> string) list \<Rightarrow> (string, string) dict list \<Rightarrow>
     (string, string) dict list" where
  "collect_custom strip [] new_custom_fields = new_custom_fields"
| "collect_custom strip ((n_entry, c_combo) # rest) new_custom_fields =
     (let name = strip n_entry; header = strip c_combo in
      if name \<noteq> [] then
        collect_custom strip rest (new_custom_fields @ [[(''name'', name), (''header'', header)]])
      else collect_custom strip rest new_custom_fields)"

definition save_all :: "(string \<Rightarrow> string) \<Rightarrow> App \<times> world \<Rightarrow> App \<times> world" where
  "save_all strip aw =
     (case aw of (a, w) \<Rightarrow>
        (let final_map = collect_map strip (mapper_widgets a);
             w1 = save_json HEADERS_MAP_FILE (json_of_strs final_map) w;
             a1 = a\<lparr>headers_map := json_of_strs final_map\<rparr>;
             new_custom_fields = collect_custom strip (custom_widgets a1) [];
             w2 = save_json CUSTOM_FIELDS_FILE (json_of_rows new_custom_fields) w1;
             a2 = a1\<lparr>custom_fields := json_of_rows new_custom_fields\<rparr>
         in (a2, show_dialog (ShowInfo ''Saved'' ''Headers and custom fields saved.'') w2)))"

text \<open>
  \<^verbatim>\<open>
  def _update_preview_from_combo(self, combo, preview_label):
      h = combo.get().strip()
      vals = self.headers_samples.get(h, [])[:3]
      if vals:
          preview_label.config(text=" | ".join(vals))
      else:
          preview_label.config(text="")
  \<close>
  The result is the new text of the preview label.
\<close>

definition update_preview_from_combo :: "(string \<Rightarrow> string) \<Rightarrow> App \<Rightarrow> combobox \<Rightarrow> string" where
  "update_preview_from_combo strip a combo =
     (let h = strip (combo_text combo);
          vals = take 3 (case dict_get (headers_samples a) h of None \<Rightarrow> [] | Some v \<Rightarrow> v)
      in if vals \<noteq> [] then join '' | '' vals else [])"

text \<open>
  \<^verbatim>\<open>
  def _typeahead_and_preview(self, combo, preview_label):
      typed = combo.get().strip()
      if not self.cached_headers:
          preview_label.config(text="")
          return
      if typed:
          filtered = [h for h in self.cached_headers if typed.lower() in h.lower()]
          combo["values"] = filtered or self.cached_headers
      else:
          combo["values"] = self.cached_headers
      self._update_preview_from_combo(combo, preview_label)
  \<close>
  The result is the combobox with its new drop-down list, and the new text of the label.
\<close>

definition typeahead_and_preview ::
  "(string \<Rightarrow> string) \<Rightarrow> (string \<Rightarrow> string) \<Rightarrow> App \<Rightarrow> combobox \<Rightarrow> combobox \<times> string" where
  "typeahead_and_preview strip lower a combo =
     (let typed = strip (combo_text combo) in
      if cached_headers a = [] then (combo, [])
      else
        (let combo1 =
               (if typed \<noteq> [] then
                  (let filtered = filter (\<lambda>h. str_in (lower typed) (lower h)) (cached_headers a)
                   in combo\<lparr>combo_values :=
                               (if filtered \<noteq> [] then filtered else cached_headers a)\<rparr>)
                else combo\<lparr>combo_values := cached_headers a\<rparr>)
         in (combo1, update_preview_from_combo strip a combo1)))"

text \<open>
  The suggestions \<^verbatim>\<open>filter_headers(typed_text)\<close> of the specification are the values the
  callback gives the combobox when the user has typed \<^verbatim>\<open>typed_text\<close> into it.
\<close>

definition filter_headers ::
  "(string \<Rightarrow> string) \<Rightarrow> (string \<Rightarrow> string) \<Rightarrow> App \<Rightarrow> string \<Rightarrow> string list" where
  "filter_headers strip lower a typed_text =
     combo_values (fst (typeahead_and_preview strip lower a
        \<lparr>combo_text = typed_text, combo_values = cached_headers a\<rparr>))"

subsection \<open>The CSV header cache\<close>

text \<open>
  \<^verbatim>\<open>open(path, newline='', encoding="utf-8-sig")\<close> raises, or gives the text of the file
  with a leading byte-order mark (the bytes EF BB BF) left out; only the first one is.
\<close>

definition BOM :: string where
  "BOM = [CHR 0xEF, CHR 0xBB, CHR 0xBF]"

definition decode_utf_8_sig :: "string \<Rightarrow> string" where
  "decode_utf_8_sig bytes = (if take 3 bytes = BOM then drop 3 bytes else bytes)"

text \<open>
  \<^verbatim>\<open>csv.reader\<close> is the library's: it is a parameter of the model, a function from the
  text of the file to what the successive calls of \<^verbatim>\<open>next(reader)\<close> do: each returns a
  record (the list of its cells; the empty list for a blank line) or raises
  (\<^verbatim>\<open>csv.Error\<close>, \<^verbatim>\<open>UnicodeDecodeError\<close>); after the last one, \<^verbatim>\<open>StopIteration\<close>.
\<close>

datatype read = Row "string list" | Fails exn

type_synonym csv_reader = "string \<Rightarrow> read list"

text \<open>
  \<^verbatim>\<open>csv.DictReader\<close>, as the standard library defines it. \<^verbatim>\<open>fieldnames\<close> is the first
  record, or \<^verbatim>\<open>None\<close> when there is none:
  \<^verbatim>\<open>
  try: self._fieldnames = next(self.reader)
  except StopIteration: pass
  \<close>
\<close>

fun read_fieldnames :: "read list \<Rightarrow> exn + (string list option \<times> read list)" where
  "read_fieldnames [] = Inr (None, [])"
| "read_fieldnames (Row r # rest) = Inr (Some r, rest)"
| "read_fieldnames (Fails e # rest) = Inl e"

text \<open>
  A row of the \<^verbatim>\<open>DictReader\<close> is a dict from the field names to the cells; a row longer
  than the field names has its surplus under the key \<^verbatim>\<open>None\<close> (\<^verbatim>\<open>restkey\<close>), a shorter
  one has \<^verbatim>\<open>None\<close> (\<^verbatim>\<open>restval\<close>) for the fields it lacks:
  \<^verbatim>\<open>
  d = dict(zip(self.fieldnames, row))
  lf = len(self.fieldnames)
  lr = len(row)
  if lf < lr:
      d[self.restkey] = row[lf:]
  elif lf > lr:
      for key in self.fieldnames[lr:]:
          d[key] = self.restval
  \<close>
\<close>

datatype cell = Cell string | NoCell | Rest "string list"

definition dict_row :: "string list \<Rightarrow> string list \<Rightarrow> (string option, cell) dict" where
  "dict_row fieldnames row =
     (let d = dict_of (zip (map Some fieldnames) (map Cell row));
          lf = length fieldnames;
          lr = length row
      in if lf < lr then dict_set d None (Rest (drop lf row))
         else if lf > lr then foldl (\<lambda>d key. dict_set d (Some key) NoCell) d (drop lr fieldnames)
         else d)"

text \<open>
  \<^verbatim>\<open>"" if val is None else str(val)\<close>. The \<^verbatim>\<open>str\<close> of a list of cells is never asked for:
  a list stands under the key \<^verbatim>\<open>None\<close> only, and the lookup of that key raises first.
\<close>

fun cell_str :: "cell \<Rightarrow> string" where
  "cell_str (Cell v) = v"
| "cell_str NoCell = []"
| "cell_str (Rest vs) = ''['' @ join '', '' (map (\<lambda>v. [CHR 0x27] @ v @ [CHR 0x27]) vs) @ '']''"

text \<open>
  \<^verbatim>\<open>
  for h, val in row.items():
      samples[h].append("" if val is None else str(val))
  \<close>
  \<^verbatim>\<open>samples[h]\<close> raises \<^verbatim>\<open>KeyError\<close> for a key that \<^verbatim>\<open>samples\<close> lacks, \<^verbatim>\<open>None\<close> among them.
\<close>

fun append_samples ::
  "(string option \<times> cell) list \<Rightarrow> (string, string list) dict \<Rightarrow> exn + (string, string list) dict" where
  "append_samples [] samples = Inr samples"
| "append_samples ((h, val) # items) samples =
     (case h of
        None \<Rightarrow> Inl (KeyError None)
      | Some k \<Rightarrow>
          (case dict_get samples k of
             None \<Rightarrow> Inl (KeyError (Some k))
           | Some vs \<Rightarrow> append_samples items (dict_set samples k (vs @ [cell_str val]))))"

text \<open>
  \<^verbatim>\<open>
  for i, row in enumerate(reader):
      if i >= 3:
          break
      for h, val in row.items():
          samples[h].append("" if val is None else str(val))
  \<close>
  \<^verbatim>\<open>DictReader.__next__\<close> reads the next record and passes over blank ones
  (\<^verbatim>\<open>while row == []: row = next(self.reader)\<close>); the loop asks for a fourth row before it
  breaks.
\<close>

fun sample_rows ::
  "nat \<Rightarrow> string list \<Rightarrow> read list \<Rightarrow> (string, string list) dict \<Rightarrow> exn + (string, string list) dict" where
  "sample_rows i fieldnames [] samples = Inr samples"
| "sample_rows i fieldnames (Fails e # rest) samples = Inl e"
| "sample_rows i fieldnames (Row row # rest) samples =
     (if row = [] then sample_rows i fieldnames rest samples
      else if i \<ge> 3 then Inr samples
      else (case append_samples (dict_row fieldnames row) samples of
              Inl e \<Rightarrow> Inl e
            | Inr samples1 \<Rightarrow> sample_rows (i + 1) fieldnames rest samples1))"

text \<open>
  \<^verbatim>\<open>
  def _cache_headers(self, path):
      try:
          with open(path, newline='', encoding="utf-8-sig") as f:
              reader = csv.DictReader(f)
              self.cached_headers = reader.fieldnames or []
              samples = {h: [] for h in self.cached_headers}
              for i, row in enumerate(reader):
                  ...
              self.headers_samples = samples
      except Exception as e:
          messagebox.showerror("Header Cache Error", str(e))
  \<close>
  When \<^verbatim>\<open>fieldnames\<close> is \<^verbatim>\<open>None\<close> the file has no record, and the loop ends at once.
\<close>

definition App_cache_headers :: "csv_reader \<Rightarrow> string \<Rightarrow> App \<times> world \<Rightarrow> App \<times> world" where
  "App_cache_headers reader path aw =
     (case aw of (a, w) \<Rightarrow>
        (case csv_at w path of
           Inl e \<Rightarrow> (a, show_dialog (ShowError ''Header Cache Error'' e) w)
         | Inr bytes \<Rightarrow>
             (case read_fieldnames (reader (decode_utf_8_sig bytes)) of
                Inl e \<Rightarrow> (a, show_dialog (ShowError ''Header Cache Error'' e) w)
              | Inr (fieldnames, rest) \<Rightarrow>
                  (let a1 = a\<lparr>cached_headers := (case fieldnames of None \<Rightarrow> [] | Some fs \<Rightarrow> fs)\<rparr>;
                       samples = dict_of (map (\<lambda>h. (h, [])) (cached_headers a1))
                   in case sample_rows 0 (cached_headers a1) rest samples of
                        Inl e \<Rightarrow> (a1, show_dialog (ShowError ''Header Cache Error'' e) w)
                      | Inr samples1 \<Rightarrow> (a1\<lparr>headers_samples := samples1\<rparr>, w)))))"

text \<open>
  A concrete reader for the examples: plain comma-separated text, one record a line, no
  quoting.
\<close>

fun split_on :: "char \<Rightarrow> string \<Rightarrow> string \<Rightarrow> string list" where
  "split_on sep acc [] = [rev acc]"
| "split_on sep acc (c # cs) =
     (if c = sep then rev acc # split_on sep [] cs else split_on sep (c # acc) cs)"

definition plain_lines :: "string \<Rightarrow> string list" where
  "plain_lines text =
     (let ls = split_on (CHR 0x0A) [] text in if last ls = [] then butlast ls else ls)"

definition plain_reader :: csv_reader where
  "plain_reader text =
     map (\<lambda>l. Row (if l = [] then [] else split_on (CHR '','') [] l)) (plain_lines text)"


section \<open>The module of stage 2\<close>

text \<open>
  The globals \<^verbatim>\<open>presets\<close> (set from \<^verbatim>\<open>load_presets()\<close> when the module is loaded),
  \<^verbatim>\<open>current_preset\<close> and \<^verbatim>\<open>preset_buttons\<close> of
  \<^verbatim>\<open>appraisal_tool_stage2_presets_help.py\<close>, and the dict \<^verbatim>\<open>adj_entries\<close> that
  \<^verbatim>\<open>main\<close> builds and hands to every callback. A button is its relief and whether its
  font is bold.
\<close>

record Stage2 =
  g_presets :: json
  current_preset :: "string option"
  g_preset_buttons :: "(string, relief \<times> bool) dict"
  adj_entries :: "(string, string) dict"

text \<open>
  \<^verbatim>\<open>
  def highlight_preset(preset_name):
      for name, button in preset_buttons.items():
          if name == preset_name:
              button.config(relief="sunken", font=("Segoe UI", 9, "bold"))
          else:
              button.config(relief="raised", font=("Segoe UI", 9, "normal"))
  \<close>
\<close>

definition highlight_preset :: "string \<Rightarrow> Stage2 \<Rightarrow> Stage2" where
  "highlight_preset preset_name s =
     s\<lparr>g_preset_buttons :=
         map (\<lambda>(name, button). (name, if name = preset_name then (SUNKEN, True) else (RAISED, False)))
           (g_preset_buttons s)\<rparr>"

text \<open>
  \<^verbatim>\<open>
  def apply_preset(preset_name, entries):
      global current_preset
      current_preset = preset_name
      highlight_preset(preset_name)
      data = presets.get(preset_name, {})
      for field, entry in entries.items():
          entry.delete(0, tk.END)
          if field in data:
              entry.insert(0, str(data[field]))
  \<close>
  The result is the new globals and the new texts of the entries.
\<close>

definition apply_preset ::
  "(json \<Rightarrow> exn + string) \<Rightarrow> string \<Rightarrow> (string, string) dict \<Rightarrow> Stage2 \<Rightarrow>
     (Stage2 \<times> (string, string) dict) outcome" where
  "apply_preset conv preset_name entries s =
     (let s1 = s\<lparr>current_preset := Some preset_name\<rparr>;
          s2 = highlight_preset preset_name s1
      in case py_get (g_presets s2) preset_name (JObj []) of
           Inl e \<Rightarrow> Raises e (s2, entries)
         | Inr data \<Rightarrow>
             (case fill_entries conv data entries of
                Raises e entries1 \<Rightarrow> Raises e (s2, entries1)
              | Done entries1 \<Rightarrow> Done (s2, entries1)))"

text \<open>
  \<^verbatim>\<open>
  def save_preset(preset_name, entries):
      if not preset_name:
          messagebox.showwarning("No preset selected", "Select Q1-Q5 first before saving.")
          return
      data = {}
      for field, entry in entries.items():
          val = entry.get().strip()
          if val:
              data[field] = val
      presets[preset_name] = data
      save_presets(presets)
      messagebox.showinfo("Preset Saved", f"Preset {preset_name} updated and saved.")
  \<close>
  (The source writes the range in the warning with an en dash.)
\<close>

fun collect_nonblank ::
  "(string \<Rightarrow> string) \<Rightarrow> (string \<times> string) list \<Rightarrow> (string, string) dict \<Rightarrow> (string, string) dict" where
  "collect_nonblank strip [] data = data"
| "collect_nonblank strip ((field, entry) # rest) data =
     (let val = strip entry in
      if val \<noteq> [] then collect_nonblank strip rest (dict_set data field val)
      else collect_nonblank strip rest data)"

definition save_preset ::
  "(string \<Rightarrow> string) \<Rightarrow> string option \<Rightarrow> (string, string) dict \<Rightarrow> Stage2 \<times> world \<Rightarrow>
     (Stage2 \<times> world) outcome" where
  "save_preset strip preset_name entries sw =
     (case sw of (s, w) \<Rightarrow>
        (case preset_name of
           None \<Rightarrow>
             Done (s, show_dialog
                        (ShowWarning ''No preset selected'' ''Select Q1-Q5 first before saving.'') w)
         | Some name \<Rightarrow>
             if name = [] then
               Done (s, show_dialog
                          (ShowWarning ''No preset selected'' ''Select Q1-Q5 first before saving.'') w)
             else
               (let data = collect_nonblank strip entries [] in
                case py_setitem (g_presets s) name (json_of_strs data) of
                  Inl e \<Rightarrow> Raises e (s, w)
                | Inr ps \<Rightarrow>
                    (let s1 = s\<lparr>g_presets := ps\<rparr>;
                         w1 = save_presets (g_presets s1) w
                     in Done (s1, show_dialog
                                    (ShowInfo ''Preset Saved''
                                       (''Preset '' @ name @ '' updated and saved.'')) w1)))))"

text \<open>
  \<^verbatim>\<open>
  def clear_adjustments(entries):
      for entry in entries.values():
          entry.delete(0, tk.END)
  \<close>
\<close>

definition clear_adjustments :: "(string, string) dict \<Rightarrow> (string, string) dict" where
  "clear_adjustments entries = map (\<lambda>(field, entry). (field, entry_delete_all entry)) entries"

text \<open>
  The commands \<^verbatim>\<open>main\<close> binds to the buttons:
  \<^verbatim>\<open>
  command=lambda pn=p: apply_preset(pn, adj_entries)          # Q1 .. Q5
  command=lambda: save_preset(current_preset, adj_entries)    # Save Preset
  command=lambda: clear_adjustments(adj_entries)              # Clear Adjustments
  \<close>
\<close>

definition click_preset :: "(json \<Rightarrow> exn + string) \<Rightarrow> string \<Rightarrow> Stage2 \<Rightarrow> Stage2 outcome" where
  "click_preset conv pn s =
     (case apply_preset conv pn (adj_entries s) s of
        Done (s1, entries) \<Rightarrow> Done (s1\<lparr>adj_entries := entries\<rparr>)
      | Raises e (s1, entries) \<Rightarrow> Raises e (s1\<lparr>adj_entries := entries\<rparr>))"

definition click_save_preset :: "(string \<Rightarrow> string) \<Rightarrow> Stage2 \<times> world \<Rightarrow> (Stage2 \<times> world) outcome" where
  "click_save_preset strip sw = save_preset strip (current_preset (fst sw)) (adj_entries (fst sw)) sw"

definition click_clear_adjustments :: "Stage2 \<Rightarrow> Stage2" where
  "click_clear_adjustments s = s\<lparr>adj_entries := clear_adjustments (adj_entries s)\<rparr>"


section \<open>Example states\<close>

text \<open>
  A running \<^verbatim>\<open>App\<close>: the five preset buttons, three adjustment entries, the headers of a
  CSV file read earlier, and an open header mapper with one base field and three custom
  rows, one with an empty name, one with a name of blanks and one with a name and no header.
\<close>

definition demo_buttons :: "(string, button) dict" where
  "demo_buttons =
     map (\<lambda>q. (q, \<lparr>btn_relief = RAISED, btn_bd = 2\<rparr>)) [''Q1'', ''Q2'', ''Q3'', ''Q4'', ''Q5'']"

definition demo_presets :: json where
  "demo_presets =
     JObj [(''Q1'', JObj [(''GLA $/sf'', JStr ''50'')]),
           (''Q2'', JObj [(''Basement $/sf'', JStr ''20'')])]"

definition demo_app :: App where
  "demo_app =
     \<lparr>presets = demo_presets,
      headers_map = JObj [],
      custom_fields = JArr [],
      active_preset = None,
      adjustment_entries = [(''GLA $/sf'', ''50000''), (''Basement $/sf'', []), (''Garage $/bay'', ''  '')],
      preset_buttons = demo_buttons,
      cached_headers = [''Sale Price'', ''GLA'', ''Lot Size''],
      headers_samples = [(''Sale Price'', [''100'']), (''GLA'', [''1'']), (''Lot Size'', [''2''])],
      mapper_widgets = [(''GLA (sf)'', '' GLA '')],
      custom_widgets = [([], ''Sale Price''), (''  '', ''GLA''), (''Pool'', [])]\<rparr>"

text \<open>
  A conversion for the examples. Their presets hold strings only or are no dict at all, so
  it is never consulted.
\<close>

definition demo_conv :: "json \<Rightarrow> exn + string" where
  "demo_conv v = Inl TypeError"

text \<open>A world with no file yet, where every path can be written.\<close>

definition demo_world :: world where
  "demo_world =
     \<lparr>file_at = (\<lambda>p. Absent), write_at = (\<lambda>p. WriteOk), csv_at = (\<lambda>p. Inl OSError),
      dialogs = []\<rparr>"

text \<open>The stage 2 module in the same situation.\<close>

definition demo_stage2 :: Stage2 where
  "demo_stage2 =
     \<lparr>g_presets = demo_presets,
      current_preset = None,
      g_preset_buttons = map (\<lambda>q. (q, (RAISED, False))) [''Q1'', ''Q2'', ''Q3'', ''Q4'', ''Q5''],
      adj_entries = [(''GLA $/sf'', ''50000''), (''Basement $/sf'', []), (''Garage $/bay'', ''  '')]\<rparr>"

text \<open>The preset \<^verbatim>\<open>Q3\<close> has been chosen, and the entries then typed as above.\<close>

definition demo_app_Q3 :: App where
  "demo_app_Q3 = demo_app\<lparr>active_preset := Some ''Q3''\<rparr>"

definition demo_stage2_Q3 :: Stage2 where
  "demo_stage2_Q3 = demo_stage2\<lparr>current_preset := Some ''Q3''\<rparr>"

text \<open>
  A world where \<^verbatim>\<open>open\<close> raises for the header-mapping file, and one where the writing
  of that file raises after \<^verbatim>\<open>open\<close> has truncated it; every other path can be written.
\<close>

definition demo_world_ro :: world where
  "demo_world_ro =
     demo_world\<lparr>write_at := (\<lambda>p. if p = HEADERS_MAP_FILE then OpenFails else WriteOk)\<rparr>"

definition demo_world_full :: world where
  "demo_world_full =
     demo_world\<lparr>file_at := (\<lambda>p. if p = HEADERS_MAP_FILE then Doc (JObj []) else Absent),
                 write_at := (\<lambda>p. if p = HEADERS_MAP_FILE then WriteFails else WriteOk)\<rparr>"

text \<open>
  A world whose presets file holds a JSON array, and the two programs as they are after
  loading their presets from it.
\<close>

definition demo_world_array :: world where
  "demo_world_array = demo_world\<lparr>file_at := (\<lambda>p. if p = PRESETS_FILE then Doc (JArr []) else Absent)\<rparr>"

definition demo_app_array :: App where
  "demo_app_array = demo_app\<lparr>presets := load_json demo_world_array PRESETS_FILE DEFAULT_PRESETS\<rparr>"

definition demo_stage2_array :: Stage2 where
  "demo_stage2_array = demo_stage2\<lparr>g_presets := load_presets demo_world_array\<rparr>"

text \<open>
  A world with CSV files. All have the header row \<^verbatim>\<open>a,b\<close> but \<^verbatim>\<open>twice.csv\<close>, whose
  header row is \<^verbatim>\<open>a,a\<close>. The data row of \<^verbatim>\<open>ragged.csv\<close> has three cells, the one of
  \<^verbatim>\<open>comma.csv\<close> ends with a comma, and \<^verbatim>\<open>five.csv\<close> starts with a byte-order mark and
  has five data rows, one of them short, after a blank line.
\<close>

definition demo_world_csv :: world where
  "demo_world_csv =
     demo_world\<lparr>csv_at := (\<lambda>p.
        if p = ''ragged.csv'' then Inr (''a,b'' @ [CHR 0x0A] @ ''1,2,3'' @ [CHR 0x0A])
        else if p = ''comma.csv'' then Inr (''a,b'' @ [CHR 0x0A] @ ''1,2,'' @ [CHR 0x0A])
        else if p = ''twice.csv'' then Inr (''a,a'' @ [CHR 0x0A] @ ''1,2'' @ [CHR 0x0A])
        else if p = ''five.csv'' then
          Inr (BOM @ ''a,b'' @ [CHR 0x0A] @ ''1,2'' @ [CHR 0x0A] @ [CHR 0x0A] @ ''3'' @ [CHR 0x0A]
                 @ ''4,5'' @ [CHR 0x0A] @ ''6,7'' @ [CHR 0x0A] @ ''8,9'' @ [CHR 0x0A])
        else Inl OSError)\<rparr>"

section \<open>Properties\<close>

subsection \<open>Strings and dicts\<close>

lemma take_eq_prefix: "(take (length sub) s = sub) = prefix sub s"
  by (metis append_eq_conv_conj prefix_def take_is_prefix)

text \<open>\<^const>\<open>str_in\<close> is the contiguous-sublist relation of the library.\<close>

lemma str_in_sublist: "str_in sub s = sublist sub s"
proof (induction s)
  case Nil
  show ?case by simp
next
  case (Cons c cs)
  show ?case
  proof (cases sub)
    case Nil
    then show ?thesis by simp
  next
    case (Cons x xs)
    have "str_in sub (c # cs) = (prefix sub (c # cs) \<or> sublist sub cs)"
      using Cons.IH take_eq_prefix [of sub "c # cs"] by simp
    then show ?thesis using Cons by (simp add: sublist_Cons_right)
  qed
qed

subsection \<open>The header mapper\<close>

lemma collect_custom_eq:
  "collect_custom strip rows acc =
     acc @ map (\<lambda>(n, h). [(''name'', strip n), (''header'', strip h)])
             (filter (\<lambda>(n, h). strip n \<noteq> []) rows)"
  by (induction strip rows acc rule: collect_custom.induct) (simp_all add: Let_def)

text \<open>
  C7. Whatever rows the header mapper holds when it is committed, the custom fields
  afterwards are, in the order of the rows, exactly the rows whose name is not empty once
  \<^verbatim>\<open>str.strip\<close> has trimmed it, each with its trimmed name and its trimmed header. A row
  whose name is empty or consists of blanks is dropped whatever its header is; a row with a
  name and an empty header is kept, with the empty header.
\<close>

theorem commit_keeps_named_rows:
  "custom_fields (fst (save_all strip (a, w))) =
     JArr (map (\<lambda>(n, h). JObj [(''name'', JStr (strip n)), (''header'', JStr (strip h))])
            (filter (\<lambda>(n, h). strip n \<noteq> []) (custom_widgets a)))"
  by (simp add: save_all_def Let_def collect_custom_eq json_of_rows_def json_of_strs_def
      comp_def case_prod_unfold)

theorem commit_keeps_named_rows_witness:
  "custom_widgets demo_app = [([], ''Sale Price''), (''  '', ''GLA''), (''Pool'', [])] \<and>
   ascii_strip ''  '' = [] \<and>
   custom_fields (fst (save_all ascii_strip (demo_app, demo_world))) =
     JArr [JObj [(''name'', JStr ''Pool''), (''header'', JStr [])]]"
proof -
  have s: "ascii_strip [] = []" "ascii_strip ''  '' = []" "ascii_strip ''Pool'' = ''Pool''"
    "ascii_strip ''GLA'' = ''GLA''" "ascii_strip ''Sale Price'' = ''Sale Price''"
    by (simp_all add: ascii_strip_def ascii_isspace_def)
  from commit_keeps_named_rows [of ascii_strip demo_app demo_world] s show ?thesis
    by (simp add: demo_app_def)
qed

text \<open>
  C6, as stated, fails for a typed text with blanks around it: the callback matches the
  text it has trimmed. With \<^verbatim>\<open>' g'\<close> typed, no cached header contains the typed text,
  so the claim gives all the headers; the callback suggests \<^verbatim>\<open>GLA\<close> alone.
\<close>

theorem filter_headers_trims:
  "cached_headers demo_app = [''Sale Price'', ''GLA'', ''Lot Size''] \<and>
   filter (\<lambda>h. str_in (ascii_lower '' g'') (ascii_lower h)) (cached_headers demo_app) = [] \<and>
   filter_headers ascii_strip ascii_lower demo_app '' g'' = [''GLA'']"
  by code_simp

text \<open>
  C6, amended. While headers are cached, the suggestions for a typed text are never empty
  and are a subsequence of the cached headers: with \<open>t\<close> the typed text trimmed by
  \<^verbatim>\<open>str.strip\<close>, they are the headers \<open>h\<close> such that \<^verbatim>\<open>t.lower()\<close> occurs in
  \<^verbatim>\<open>h.lower()\<close>, in their cached order, and all the cached headers when \<open>t\<close> is empty
  or occurs in none.
\<close>

theorem filter_headers_fallback:
  "cached_headers a \<noteq> [] \<Longrightarrow>
     filter_headers strip lower a typed \<noteq> [] \<and>
     subseq (filter_headers strip lower a typed) (cached_headers a) \<and>
     filter_headers strip lower a typed =
       (let t = strip typed;
            ms = filter (\<lambda>h. sublist (lower t) (lower h)) (cached_headers a)
        in if t = [] \<or> ms = [] then cached_headers a else ms)"
  by (simp add: filter_headers_def typeahead_and_preview_def Let_def str_in_sublist)

theorem filter_headers_fallback_witness:
  "cached_headers demo_app \<noteq> [] \<and>
   filter_headers ascii_strip ascii_lower demo_app ''gla'' = [''GLA''] \<and>
   filter_headers ascii_strip ascii_lower demo_app ''xyz_no_match'' =
     [''Sale Price'', ''GLA'', ''Lot Size''] \<and>
   filter_headers ascii_strip ascii_lower demo_app [] = [''Sale Price'', ''GLA'', ''Lot Size''] \<and>
   filter_headers ascii_strip ascii_lower demo_app ''  '' = [''Sale Price'', ''GLA'', ''Lot Size'']"
proof -
  have h: "cached_headers demo_app \<noteq> []" by (simp add: demo_app_def)
  have m: "filter_headers ascii_strip ascii_lower demo_app ''gla'' = [''GLA'']"
    by code_simp
  have n: "filter_headers ascii_strip ascii_lower demo_app ''xyz_no_match'' =
      [''Sale Price'', ''GLA'', ''Lot Size'']"
    by code_simp
  have s: "ascii_strip [] = []" "ascii_strip ''  '' = []"
    by (simp_all add: ascii_strip_def ascii_isspace_def)
  from filter_headers_fallback [OF h, of ascii_strip ascii_lower "[]"] s
  have e: "filter_headers ascii_strip ascii_lower demo_app [] = cached_headers demo_app"
    by simp
  from filter_headers_fallback [OF h, of ascii_strip ascii_lower "''  ''"] s
  have b: "filter_headers ascii_strip ascii_lower demo_app ''  '' = cached_headers demo_app"
    by simp
  from h m n e b show ?thesis by (simp add: demo_app_def)
qed

subsection \<open>Applying a preset\<close>

text \<open>
  On a stored set that is an object of strings the loop over the entries returns, and
  every entry then shows the string stored for its field, or nothing.
\<close>

lemma is_preset_set_value:
  "list_all (\<lambda>kv. is_str (snd kv)) kvs \<Longrightarrow> map_of kvs f = Some v \<Longrightarrow> \<exists>s. v = JStr s"
proof -
  assume a: "list_all (\<lambda>kv. is_str (snd kv)) kvs" and m: "map_of kvs f = Some v"
  from m have "(f, v) \<in> set kvs" by (rule map_of_SomeD)
  with a have "is_str v" by (auto simp: list_all_iff)
  then show ?thesis by (cases v) simp_all
qed

lemma fill_entries_strs:
  assumes "list_all (\<lambda>kv. is_str (snd kv)) kvs"
  shows "fill_entries conv (JObj kvs) entries =
     Done (map (\<lambda>(f, t). (f, case str_value (map_of kvs f) of None \<Rightarrow> [] | Some v \<Rightarrow> v)) entries)"
proof (induction entries)
  case Nil
  show ?case by simp
next
  case (Cons fe entries)
  obtain f t where fe: "fe = (f, t)" by (cases fe)
  show ?case
  proof (cases "map_of kvs f")
    case None
    with Cons fe show ?thesis by (simp add: entry_delete_all_def)
  next
    case (Some v)
    from is_preset_set_value [OF assms Some] obtain s where "v = JStr s" by blast
    with Cons fe Some show ?thesis by (simp add: entry_delete_all_def entry_insert0_def)
  qed
qed

lemma py_get_presets:
  assumes "is_presets ps"
  shows "\<exists>kvs. py_get ps name (JObj []) = Inr (JObj kvs) \<and> list_all (\<lambda>kv. is_str (snd kv)) kvs \<and>
     (\<forall>f. str_value (map_of kvs f) = stored_value ps name f)"
proof -
  from assms obtain pkvs where ps: "ps = JObj pkvs" and all: "list_all (\<lambda>kv. is_preset_set (snd kv)) pkvs"
    by (cases ps) simp_all
  show ?thesis
  proof (cases "map_of pkvs name")
    case None
    with ps show ?thesis by (simp add: stored_value_def)
  next
    case (Some d)
    then have "(name, d) \<in> set pkvs" by (rule map_of_SomeD)
    with all have "is_preset_set d" by (auto simp: list_all_iff)
    then obtain kvs where "d = JObj kvs" and "list_all (\<lambda>kv. is_str (snd kv)) kvs"
      by (cases d) simp_all
    with ps Some show ?thesis by (simp add: stored_value_def)
  qed
qed

lemma App_apply_preset_entries:
  assumes "is_presets (presets a)"
  shows "adjustment_entries (state_of (App_apply_preset conv name a)) =
     map (\<lambda>(f, t). (f, case stored_value (presets a) name f of None \<Rightarrow> [] | Some v \<Rightarrow> v))
       (adjustment_entries a)"
proof -
  from py_get_presets [OF assms, of name] obtain kvs where
    g: "py_get (presets a) name (JObj []) = Inr (JObj kvs)" and
    s: "list_all (\<lambda>kv. is_str (snd kv)) kvs" and
    v: "\<And>f. str_value (map_of kvs f) = stored_value (presets a) name f"
    by blast
  show ?thesis
    by (simp add: App_apply_preset_def g fill_entries_strs [OF s] v Let_def split: option.split)
qed

lemma App_apply_preset_presets:
  "presets (state_of (App_apply_preset conv name a)) = presets a"
  by (simp add: App_apply_preset_def Let_def split: sum.split outcome.split option.split)

lemma click_preset_entries:
  assumes "is_presets (g_presets s)"
  shows "adj_entries (state_of (click_preset conv name s)) =
     map (\<lambda>(f, t). (f, case stored_value (g_presets s) name f of None \<Rightarrow> [] | Some v \<Rightarrow> v))
       (adj_entries s)"
proof -
  from py_get_presets [OF assms, of name] obtain kvs where
    g: "py_get (g_presets s) name (JObj []) = Inr (JObj kvs)" and
    s: "list_all (\<lambda>kv. is_str (snd kv)) kvs" and
    v: "\<And>f. str_value (map_of kvs f) = stored_value (g_presets s) name f"
    by blast
  show ?thesis
    by (simp add: click_preset_def apply_preset_def highlight_preset_def g
        fill_entries_strs [OF s] v Let_def)
qed

lemma click_preset_presets: "g_presets (state_of (click_preset conv name s)) = g_presets s"
  by (simp add: click_preset_def apply_preset_def highlight_preset_def Let_def
      split: sum.split outcome.split prod.split)

lemma refill:
  "map (\<lambda>(f, t). (f, g f)) (map (\<lambda>(f, t). (f, g' f)) es) = map (\<lambda>(f, t). (f, g f)) es"
  by (induction es) auto

text \<open>
  C5, as stated, fails: the programs keep as presets whatever \<^verbatim>\<open>json.load\<close> returned.
  When the presets file holds an array, \<^verbatim>\<open>presets.get\<close> raises \<^verbatim>\<open>AttributeError\<close>
  before any entry is cleared, so after \<^verbatim>\<open>Q1\<close> and then \<^verbatim>\<open>Q2\<close> have been applied the
  entries still show what they showed, though nothing is stored for \<^verbatim>\<open>Q2\<close>.
\<close>

theorem apply_preset_keeps_stale_fields:
  "presets demo_app_array = JArr [] \<and>
   adjustment_entries (state_of (App_apply_preset demo_conv ''Q2''
       (state_of (App_apply_preset demo_conv ''Q1'' demo_app_array)))) =
     [(''GLA $/sf'', ''50000''), (''Basement $/sf'', []), (''Garage $/bay'', ''  '')] \<and>
   g_presets demo_stage2_array = JArr [] \<and>
   adj_entries (state_of (click_preset demo_conv ''Q2''
       (state_of (click_preset demo_conv ''Q1'' demo_stage2_array)))) =
     [(''GLA $/sf'', ''50000''), (''Basement $/sf'', []), (''Garage $/bay'', ''  '')]"
  by code_simp

text \<open>
  C5, amended. When the stored presets have the structure of the data model (an object of
  objects of strings), then after preset \<open>n\<close> and then preset \<open>m\<close> have been applied, in
  either program, every adjustment entry shows the value the stored set of \<open>m\<close> has for
  its field, and nothing when the set has none: an entry that shows something shows a value
  of \<open>m\<close>'s set, so nothing of \<open>n\<close> is left. (It holds for \<open>n = m\<close> as well.)
\<close>

theorem apply_preset_replaces:
  assumes "is_presets (presets a)" and "is_presets (g_presets s)"
  shows
  "(let e2 = adjustment_entries (state_of (App_apply_preset conv m
                (state_of (App_apply_preset conv n a))))
    in e2 = map (\<lambda>(f, t). (f, case stored_value (presets a) m f of None \<Rightarrow> [] | Some v \<Rightarrow> v))
              (adjustment_entries a) \<and>
       (\<forall>(f, t) \<in> set e2. t \<noteq> [] \<longrightarrow> stored_value (presets a) m f = Some t)) \<and>
   (let e2 = adj_entries (state_of (click_preset conv m (state_of (click_preset conv n s))))
    in e2 = map (\<lambda>(f, t). (f, case stored_value (g_presets s) m f of None \<Rightarrow> [] | Some v \<Rightarrow> v))
              (adj_entries s) \<and>
       (\<forall>(f, t) \<in> set e2. t \<noteq> [] \<longrightarrow> stored_value (g_presets s) m f = Some t))"
proof -
  have p: "\<forall>(f, t) \<in> set (map (\<lambda>(f, t). (f, case g f of None \<Rightarrow> [] | Some v \<Rightarrow> v)) es).
             t \<noteq> [] \<longrightarrow> g f = Some t"
    for g :: "string \<Rightarrow> string option" and es :: "(string, string) dict"
    by (auto split: option.splits)
  have a1: "is_presets (presets (state_of (App_apply_preset conv n a)))"
    using assms(1) by (simp add: App_apply_preset_presets)
  have a: "adjustment_entries (state_of (App_apply_preset conv m
                (state_of (App_apply_preset conv n a)))) =
      map (\<lambda>(f, t). (f, case stored_value (presets a) m f of None \<Rightarrow> [] | Some v \<Rightarrow> v))
        (adjustment_entries a)"
    by (simp only: App_apply_preset_entries [OF a1] App_apply_preset_entries [OF assms(1)]
        App_apply_preset_presets refill)
  have b1: "is_presets (g_presets (state_of (click_preset conv n s)))"
    using assms(2) by (simp add: click_preset_presets)
  have b: "adj_entries (state_of (click_preset conv m (state_of (click_preset conv n s)))) =
      map (\<lambda>(f, t). (f, case stored_value (g_presets s) m f of None \<Rightarrow> [] | Some v \<Rightarrow> v))
        (adj_entries s)"
    by (simp only: click_preset_entries [OF b1] click_preset_entries [OF assms(2)]
        click_preset_presets refill)
  show ?thesis
    unfolding Let_def a b using p by blast
qed

theorem apply_preset_replaces_witness:
  "is_presets (presets demo_app) \<and> is_presets (g_presets demo_stage2) \<and>
   adjustment_entries (state_of (App_apply_preset demo_conv ''Q1'' demo_app)) =
     [(''GLA $/sf'', ''50''), (''Basement $/sf'', []), (''Garage $/bay'', [])] \<and>
   adjustment_entries (state_of (App_apply_preset demo_conv ''Q2''
       (state_of (App_apply_preset demo_conv ''Q1'' demo_app)))) =
     [(''GLA $/sf'', []), (''Basement $/sf'', ''20''), (''Garage $/bay'', [])] \<and>
   adj_entries (state_of (click_preset demo_conv ''Q2''
       (state_of (click_preset demo_conv ''Q1'' demo_stage2)))) =
     [(''GLA $/sf'', []), (''Basement $/sf'', ''20''), (''Garage $/bay'', [])]"
proof -
  have w: "is_presets (presets demo_app)" "is_presets (g_presets demo_stage2)"
    by (simp_all add: demo_app_def demo_stage2_def demo_presets_def)
  have q1: "adjustment_entries (state_of (App_apply_preset demo_conv ''Q1'' demo_app)) =
     [(''GLA $/sf'', ''50''), (''Basement $/sf'', []), (''Garage $/bay'', [])]"
    by code_simp
  from apply_preset_replaces [OF w, of demo_conv "''Q2''" "''Q1''"] w q1 show ?thesis
    by (simp add: Let_def demo_app_def demo_stage2_def demo_presets_def stored_value_def)
qed


lemma dict_get_in_keys: "k \<in> set (dict_keys d) \<Longrightarrow> \<exists>v. dict_get d k = Some v"
  by (induction d) (auto simp: dict_get_def dict_keys_def)




subsection \<open>Clearing the adjustments\<close>

lemma App_clear_adjustments_None:
  "active_preset a = None \<Longrightarrow>
     App_clear_adjustments a =
       Done (a\<lparr>adjustment_entries := map (\<lambda>(field, entry). (field, [])) (adjustment_entries a)\<rparr>)"
  by (simp add: App_clear_adjustments_def Let_def entry_delete_all_def)

lemma App_clear_adjustments_empty:
  "active_preset a = Some [] \<Longrightarrow>
     App_clear_adjustments a =
       Done (a\<lparr>adjustment_entries := map (\<lambda>(field, entry). (field, [])) (adjustment_entries a)\<rparr>)"
  by (simp add: App_clear_adjustments_def Let_def entry_delete_all_def)

lemma App_clear_adjustments_Some:
  "active_preset a = Some n \<Longrightarrow> n \<noteq> [] \<Longrightarrow> dict_get (preset_buttons a) n = Some b \<Longrightarrow>
     App_clear_adjustments a =
       Done (a\<lparr>adjustment_entries := map (\<lambda>(field, entry). (field, [])) (adjustment_entries a),
               preset_buttons := dict_set (preset_buttons a) n (raise_button b),
               active_preset := None\<rparr>)"
  by (simp add: App_clear_adjustments_def Let_def entry_delete_all_def)

lemma App_save_preset_falsy:
  "falsy (active_preset a) \<Longrightarrow>
     App_save_preset (a, w) =
       Done (a, show_dialog (ShowInfo ''Save Preset'' ''Select a Q button first.'') w)"
  by (cases "active_preset a") (simp_all add: App_save_preset_def)

text \<open>
  In v0.4.1 the claim holds: when the active preset, if there is one, has a button (as it
  has once \<^verbatim>\<open>_apply_preset\<close> has set it), \<^verbatim>\<open>_clear_adjustments\<close> returns with no preset
  active, and \<^verbatim>\<open>_save_preset\<close> after it only shows the notice and writes nothing.
\<close>

lemma App_clear_adjustments_resets:
  assumes "\<And>n. active_preset a = Some n \<Longrightarrow> n \<in> set (dict_keys (preset_buttons a))"
  shows "returned (App_clear_adjustments a) \<and>
     falsy (active_preset (state_of (App_clear_adjustments a))) \<and>
     App_save_preset (state_of (App_clear_adjustments a), w) =
       Done (state_of (App_clear_adjustments a),
             show_dialog (ShowInfo ''Save Preset'' ''Select a Q button first.'') w)"
proof -
  have r: "returned (App_clear_adjustments a) \<and>
      falsy (active_preset (state_of (App_clear_adjustments a)))"
  proof (cases "active_preset a")
    case None
    then show ?thesis by (simp add: App_clear_adjustments_None)
  next
    case (Some n)
    show ?thesis
    proof (cases "n = []")
      case True
      with Some show ?thesis by (simp add: App_clear_adjustments_empty)
    next
      case False
      from dict_get_in_keys [OF assms [OF Some]]
      obtain b where b: "dict_get (preset_buttons a) n = Some b" by blast
      show ?thesis unfolding App_clear_adjustments_Some [OF Some False b] by simp
    qed
  qed
  from r have "falsy (active_preset (state_of (App_clear_adjustments a)))" ..
  from App_save_preset_falsy [OF this] r show ?thesis by blast
qed

text \<open>
  C9. In stage 2 the claim fails. \<^verbatim>\<open>clear_adjustments\<close> empties the entries and leaves
  \<^verbatim>\<open>current_preset\<close> as it is: after \<^verbatim>\<open>Q1\<close> has been applied and the adjustments
  cleared, \<^verbatim>\<open>Q1\<close> is still the current preset, and Save Preset replaces the stored set of
  \<^verbatim>\<open>Q1\<close> by the empty one, writes the file and reports the preset saved.
\<close>

theorem stage2_clear_keeps_current_preset:
  "returned (click_preset demo_conv ''Q1'' demo_stage2) \<and>
   current_preset (click_clear_adjustments (state_of (click_preset demo_conv ''Q1'' demo_stage2))) =
     Some ''Q1'' \<and>
   py_get (g_presets (click_clear_adjustments (state_of (click_preset demo_conv ''Q1'' demo_stage2))))
       ''Q1'' JNull =
     Inr (JObj [(''GLA $/sf'', JStr ''50'')]) \<and>
   returned (click_save_preset ascii_strip
       (click_clear_adjustments (state_of (click_preset demo_conv ''Q1'' demo_stage2)), demo_world)) \<and>
   py_get (g_presets (fst (state_of (click_save_preset ascii_strip
       (click_clear_adjustments (state_of (click_preset demo_conv ''Q1'' demo_stage2)), demo_world)))))
       ''Q1'' JNull =
     Inr (JObj []) \<and>
   file_at (snd (state_of (click_save_preset ascii_strip
       (click_clear_adjustments (state_of (click_preset demo_conv ''Q1'' demo_stage2)), demo_world))))
       CONFIG_FILE =
     Doc (JObj [(''Q1'', JObj []), (''Q2'', JObj [(''Basement $/sf'', JStr ''20'')])]) \<and>
   dialogs (snd (state_of (click_save_preset ascii_strip
       (click_clear_adjustments (state_of (click_preset demo_conv ''Q1'' demo_stage2)), demo_world)))) =
     [ShowInfo ''Preset Saved'' ''Preset Q1 updated and saved.'']"
  by code_simp

subsection \<open>Saving a preset\<close>

lemma alist_update_fresh:
  "k \<notin> set (map fst d) \<Longrightarrow> AList.update k v d = d @ [(k, v)]"
  by (induction d) auto

lemma collect_nonblank_eq:
  "distinct (map fst entries) \<Longrightarrow> set (map fst data) \<inter> set (map fst entries) = {} \<Longrightarrow>
   collect_nonblank strip entries data =
     data @ map (\<lambda>(f, e). (f, strip e)) (filter (\<lambda>(f, e). strip e \<noteq> []) entries)"
proof (induction strip entries data rule: collect_nonblank.induct)
  case (1 strip data)
  then show ?case by simp
next
  case (2 strip field entry rest data)
  show ?case
  proof (cases "strip entry = []")
    case True
    with 2 show ?thesis by (simp add: Let_def)
  next
    case False
    from 2(3,4) have f: "field \<notin> set (map fst data)" by auto
    have d: "distinct (map fst rest)" using 2(3) by simp
    have i: "set (map fst (dict_set data field (strip entry))) \<inter> set (map fst rest) = {}"
      using 2(3,4) f by (auto simp: dict_set_def alist_update_fresh)
    from 2(1) [OF refl False d i] False f show ?thesis
      by (simp add: Let_def dict_set_def alist_update_fresh)
  qed
qed

text \<open>
  In stage 2 the claim holds, for presets that are a dict: \<^verbatim>\<open>save_preset\<close> under a preset
  name stores, in the order of the entries, the fields whose text is not empty once
  trimmed, each with its trimmed text, and writes the presets to the file when it can be
  written.
\<close>

lemma save_preset_stores_nonblank:
  assumes "g_presets s = JObj kvs" and "name \<noteq> []" and "distinct (dict_keys entries)"
  shows "returned (save_preset strip (Some name) entries (s, w)) \<and>
     py_get (g_presets (fst (state_of (save_preset strip (Some name) entries (s, w))))) name JNull =
       Inr (json_of_strs (map (\<lambda>(f, e). (f, strip e)) (filter (\<lambda>(f, e). strip e \<noteq> []) entries))) \<and>
     (write_at w CONFIG_FILE = WriteOk \<longrightarrow>
        file_at (snd (state_of (save_preset strip (Some name) entries (s, w)))) CONFIG_FILE =
          Doc (g_presets (fst (state_of (save_preset strip (Some name) entries (s, w))))))"
proof -
  have c: "collect_nonblank strip entries [] =
      map (\<lambda>(f, e). (f, strip e)) (filter (\<lambda>(f, e). strip e \<noteq> []) entries)"
    using collect_nonblank_eq [of entries "[]" strip] assms(3) by (simp add: dict_keys_def)
  show ?thesis
    using assms(1,2)
    by (simp add: save_preset_def Let_def c update_conv' save_presets_def show_dialog_def)
qed

text \<open>
  C1. In v0.4.1 the claim fails. With \<^verbatim>\<open>Q3\<close> active and the entries holding
  \<^verbatim>\<open>50000\<close>, nothing and two blanks, \<^verbatim>\<open>_save_preset\<close> stores all three fields under
  \<^verbatim>\<open>Q3\<close>, the empty and the blank one included and nothing trimmed, and writes them to
  the presets file; the \<^verbatim>\<open>save_preset\<close> of stage 2 stores the first field only.
\<close>

theorem App_save_preset_keeps_blank_fields:
  "active_preset demo_app_Q3 = Some ''Q3'' \<and>
   adjustment_entries demo_app_Q3 =
     [(''GLA $/sf'', ''50000''), (''Basement $/sf'', []), (''Garage $/bay'', ''  '')] \<and>
   returned (App_save_preset (demo_app_Q3, demo_world)) \<and>
   py_get (presets (fst (state_of (App_save_preset (demo_app_Q3, demo_world))))) ''Q3'' JNull =
     Inr (JObj [(''GLA $/sf'', JStr ''50000''), (''Basement $/sf'', JStr []),
                (''Garage $/bay'', JStr ''  '')]) \<and>
   file_at (snd (state_of (App_save_preset (demo_app_Q3, demo_world)))) PRESETS_FILE =
     Doc (JObj [(''Q1'', JObj [(''GLA $/sf'', JStr ''50'')]),
                (''Q2'', JObj [(''Basement $/sf'', JStr ''20'')]),
                (''Q3'', JObj [(''GLA $/sf'', JStr ''50000''), (''Basement $/sf'', JStr []),
                               (''Garage $/bay'', JStr ''  '')])]) \<and>
   py_get (g_presets (fst (state_of (click_save_preset ascii_strip (demo_stage2_Q3, demo_world)))))
       ''Q3'' JNull =
     Inr (JObj [(''GLA $/sf'', JStr ''50000'')])"
  by code_simp

subsection \<open>Committing the header mapper\<close>

text \<open>
  C2, as stated, fails: \<^verbatim>\<open>save_all\<close> is not atomic. Where the header-mapping file cannot
  be opened for writing, the warning is shown and that file stays as it was, yet the header
  mapping in memory is replaced, the custom-fields file is written, the custom fields in
  memory are replaced, and the dialog reports that both were saved.
\<close>

theorem save_all_not_atomic:
  "write_at demo_world_ro HEADERS_MAP_FILE = OpenFails \<and>
   dialogs (snd (save_all ascii_strip (demo_app, demo_world_ro))) =
     [ShowWarning ''Save Error'' ''Could not save to headers_map.json'',
      ShowInfo ''Saved'' ''Headers and custom fields saved.''] \<and>
   file_at (snd (save_all ascii_strip (demo_app, demo_world_ro))) HEADERS_MAP_FILE = Absent \<and>
   headers_map demo_app = JObj [] \<and>
   headers_map (fst (save_all ascii_strip (demo_app, demo_world_ro))) =
     JObj [(''GLA (sf)'', JStr ''GLA'')] \<and>
   file_at demo_world_ro CUSTOM_FIELDS_FILE = Absent \<and>
   file_at (snd (save_all ascii_strip (demo_app, demo_world_ro))) CUSTOM_FIELDS_FILE =
     Doc (JArr [JObj [(''name'', JStr ''Pool''), (''header'', JStr [])]]) \<and>
   custom_fields demo_app = JArr [] \<and>
   custom_fields (fst (save_all ascii_strip (demo_app, demo_world_ro))) =
     JArr [JObj [(''name'', JStr ''Pool''), (''header'', JStr [])]]"
  by code_simp

text \<open>
  C2, amended. \<^verbatim>\<open>save_all\<close> saves the two documents one after the other and each on its
  own. A document whose file can be written is written. A save that fails shows a warning
  and stores nothing: the file is as it was when \<^verbatim>\<open>open\<close> raised, and is left empty or
  partly written (no JSON) when the writing raised after \<^verbatim>\<open>open\<close> had truncated it. The
  other document is saved all the same, and in every case the header mapping and the custom
  fields in memory are replaced by the new values and the closing dialog is shown.
\<close>

theorem save_all_each_document:
  "save_all strip (a, w) = (a', w') \<Longrightarrow>
     headers_map a' = json_of_strs (collect_map strip (mapper_widgets a)) \<and>
     custom_fields a' = json_of_rows (collect_custom strip (custom_widgets a) []) \<and>
     file_at w' HEADERS_MAP_FILE =
       (case write_at w HEADERS_MAP_FILE of
          WriteOk \<Rightarrow> Doc (headers_map a')
        | OpenFails \<Rightarrow> file_at w HEADERS_MAP_FILE
        | WriteFails \<Rightarrow> Garbage) \<and>
     file_at w' CUSTOM_FIELDS_FILE =
       (case write_at w CUSTOM_FIELDS_FILE of
          WriteOk \<Rightarrow> Doc (custom_fields a')
        | OpenFails \<Rightarrow> file_at w CUSTOM_FIELDS_FILE
        | WriteFails \<Rightarrow> Garbage) \<and>
     dialogs w' = dialogs w
       @ (if write_at w HEADERS_MAP_FILE = WriteOk then []
          else [ShowWarning ''Save Error'' (''Could not save to '' @ HEADERS_MAP_FILE)])
       @ (if write_at w CUSTOM_FIELDS_FILE = WriteOk then []
          else [ShowWarning ''Save Error'' (''Could not save to '' @ CUSTOM_FIELDS_FILE)])
       @ [ShowInfo ''Saved'' ''Headers and custom fields saved.'']"
proof -
  have ne: "HEADERS_MAP_FILE \<noteq> CUSTOM_FIELDS_FILE"
    by (simp add: HEADERS_MAP_FILE_def CUSTOM_FIELDS_FILE_def)
  assume "save_all strip (a, w) = (a', w')"
  then show ?thesis
    using ne
    by (cases "write_at w HEADERS_MAP_FILE"; cases "write_at w CUSTOM_FIELDS_FILE")
      (auto simp: save_all_def Let_def save_json_def show_dialog_def)
qed

theorem save_all_each_document_witness:
  "file_at demo_world_full HEADERS_MAP_FILE = Doc (JObj []) \<and>
   write_at demo_world_full HEADERS_MAP_FILE = WriteFails \<and>
   write_at demo_world_full CUSTOM_FIELDS_FILE = WriteOk \<and>
   headers_map (fst (save_all ascii_strip (demo_app, demo_world_full))) =
     json_of_strs (collect_map ascii_strip (mapper_widgets demo_app)) \<and>
   file_at (snd (save_all ascii_strip (demo_app, demo_world_full))) HEADERS_MAP_FILE = Garbage \<and>
   file_at (snd (save_all ascii_strip (demo_app, demo_world_full))) CUSTOM_FIELDS_FILE =
     Doc (custom_fields (fst (save_all ascii_strip (demo_app, demo_world_full))))"
proof -
  have f: "file_at demo_world_full HEADERS_MAP_FILE = Doc (JObj [])"
    by (simp add: demo_world_full_def demo_world_def)
  have h: "write_at demo_world_full HEADERS_MAP_FILE = WriteFails"
    by (simp add: demo_world_full_def demo_world_def)
  have c: "write_at demo_world_full CUSTOM_FIELDS_FILE = WriteOk"
    by (simp add: demo_world_full_def demo_world_def HEADERS_MAP_FILE_def CUSTOM_FIELDS_FILE_def)
  have e: "save_all ascii_strip (demo_app, demo_world_full) =
      (fst (save_all ascii_strip (demo_app, demo_world_full)),
       snd (save_all ascii_strip (demo_app, demo_world_full)))"
    by simp
  from save_all_each_document [OF e] f h c show ?thesis by simp
qed

subsection \<open>Loading and saving documents\<close>

text \<open>
  What a load returns after a save that failed: what it returned before when \<^verbatim>\<open>open\<close>
  raised, and the default when the writing raised, since the file is then no JSON.
\<close>

lemma load_after_failed_save:
  "(write_at w path = OpenFails \<longrightarrow> load_json (save_json path doc w) path dflt = load_json w path dflt) \<and>
   (write_at w path = WriteFails \<longrightarrow> load_json (save_json path doc w) path dflt = dflt) \<and>
   (write_at w CONFIG_FILE = OpenFails \<longrightarrow> load_presets (save_presets doc w) = load_presets w) \<and>
   (write_at w CONFIG_FILE = WriteFails \<longrightarrow> load_presets (save_presets doc w) = DEFAULT_PRESETS)"
  by (simp add: load_json_def save_json_def load_presets_def save_presets_def show_dialog_def)

text \<open>
  C3, as stated, fails where the file holds JSON of another structure than the expected
  one: with a presets file that holds an array, \<^verbatim>\<open>load_json\<close> called with the default
  presets (an object) returns the array, not the default, and so does \<^verbatim>\<open>load_presets\<close>.
  Neither function looks at the structure of what \<^verbatim>\<open>json.load\<close> returns.
\<close>

theorem load_json_returns_other_structure:
  "file_at demo_world_array PRESETS_FILE = Doc (JArr []) \<and>
   load_json demo_world_array PRESETS_FILE DEFAULT_PRESETS = JArr [] \<and>
   load_json demo_world_array PRESETS_FILE DEFAULT_PRESETS \<noteq> DEFAULT_PRESETS \<and>
   load_presets demo_world_array = JArr []"
  by code_simp

text \<open>
  C3, amended. \<^verbatim>\<open>load_json\<close> returns the document that a successful \<^verbatim>\<open>save_json\<close>
  wrote last, and the default when the file is absent, cannot be opened or does not hold
  JSON; a file that holds a JSON document gives that document, whatever its structure. The
  same holds of \<^verbatim>\<open>load_presets\<close> and \<^verbatim>\<open>save_presets\<close>, whose default binds each of
  \<^verbatim>\<open>Q1\<close> .. \<^verbatim>\<open>Q5\<close> to the empty object.
\<close>

theorem load_saved_or_default:
  "(write_at w path = WriteOk \<longrightarrow> load_json (save_json path doc w) path dflt = doc) \<and>
   (file_at w path \<in> {Absent, Unopenable, Garbage} \<longrightarrow> load_json w path dflt = dflt) \<and>
   (file_at w path = Doc d \<longrightarrow> load_json w path dflt = d) \<and>
   (write_at w CONFIG_FILE = WriteOk \<longrightarrow> load_presets (save_presets doc w) = doc) \<and>
   (file_at w CONFIG_FILE \<in> {Absent, Unopenable, Garbage} \<longrightarrow>
      load_presets w =
        JObj [(''Q1'', JObj []), (''Q2'', JObj []), (''Q3'', JObj []), (''Q4'', JObj []),
              (''Q5'', JObj [])]) \<and>
   (file_at w CONFIG_FILE = Doc d \<longrightarrow> load_presets w = d)"
  by (auto simp: load_json_def save_json_def load_presets_def save_presets_def show_dialog_def
      DEFAULT_PRESETS_def)

theorem load_saved_or_default_witness:
  "write_at demo_world PRESETS_FILE = WriteOk \<and>
   load_json (save_json PRESETS_FILE (JObj [(''Q1'', JObj [])]) demo_world) PRESETS_FILE DEFAULT_PRESETS =
     JObj [(''Q1'', JObj [])] \<and>
   file_at demo_world CONFIG_FILE = Absent \<and>
   load_json demo_world PRESETS_FILE DEFAULT_PRESETS = DEFAULT_PRESETS \<and>
   load_presets demo_world =
     JObj [(''Q1'', JObj []), (''Q2'', JObj []), (''Q3'', JObj []), (''Q4'', JObj []),
           (''Q5'', JObj [])] \<and>
   file_at demo_world_array PRESETS_FILE = Doc (JArr []) \<and>
   load_json demo_world_array PRESETS_FILE DEFAULT_PRESETS = JArr []"
proof -
  have w: "write_at demo_world PRESETS_FILE = WriteOk" by (simp add: demo_world_def)
  have a: "file_at demo_world CONFIG_FILE = Absent" "file_at demo_world PRESETS_FILE = Absent"
    by (simp_all add: demo_world_def)
  have d: "file_at demo_world_array PRESETS_FILE = Doc (JArr [])"
    by (simp add: demo_world_array_def demo_world_def)
  from load_saved_or_default [of demo_world PRESETS_FILE "JObj [(''Q1'', JObj [])]" DEFAULT_PRESETS]
       load_saved_or_default [of demo_world_array PRESETS_FILE _ DEFAULT_PRESETS "JArr []"]
       w a d
  show ?thesis by simp
qed

subsection \<open>The CSV header cache\<close>

text \<open>
  When \<^verbatim>\<open>open\<close> raises, or the read of the header row does, \<^verbatim>\<open>_cache_headers\<close> shows
  the error and changes nothing; whenever it shows an error the cached samples are as
  before. But when a later read or the sampling loop raises, the header row has already
  been assigned to \<^verbatim>\<open>self.cached_headers\<close>.
\<close>

lemma cache_headers_open_failure:
  "csv_at w path = Inl e \<Longrightarrow>
     App_cache_headers reader path (a, w) = (a, show_dialog (ShowError ''Header Cache Error'' e) w)"
  by (simp add: App_cache_headers_def)

lemma cache_headers_first_read_failure:
  "csv_at w path = Inr bytes \<Longrightarrow> reader (decode_utf_8_sig bytes) = Fails e # rest \<Longrightarrow>
     App_cache_headers reader path (a, w) = (a, show_dialog (ShowError ''Header Cache Error'' e) w)"
  by (simp add: App_cache_headers_def)

lemma cache_headers_failure_keeps_samples:
  "dialogs (snd (App_cache_headers reader path (a, w))) \<noteq> dialogs w \<Longrightarrow>
     headers_samples (fst (App_cache_headers reader path (a, w))) = headers_samples a"
  by (auto simp: App_cache_headers_def show_dialog_def Let_def split: sum.splits prod.splits)

lemma cache_headers_later_failure:
  "csv_at w path = Inr bytes \<Longrightarrow> reader (decode_utf_8_sig bytes) = Row hdr # rest \<Longrightarrow>
   sample_rows 0 hdr rest (dict_of (map (\<lambda>h. (h, [])) hdr)) = Inl e \<Longrightarrow>
     App_cache_headers reader path (a, w) =
       (a\<lparr>cached_headers := hdr\<rparr>, show_dialog (ShowError ''Header Cache Error'' e) w)"
  by (simp add: App_cache_headers_def Let_def)

text \<open>
  C4. The claim fails at a CSV file whose data row has more cells than the header row:
  \<^verbatim>\<open>DictReader\<close> puts the surplus under the key \<^verbatim>\<open>None\<close>, \<^verbatim>\<open>samples[None]\<close> raises
  \<^verbatim>\<open>KeyError\<close>, and the error is shown; the cached samples are those of the file read
  before, but the cached headers are already those of the new file.
\<close>

theorem cache_headers_half_updated:
  "csv_at demo_world_csv ''ragged.csv'' = Inr (''a,b'' @ [CHR 0x0A] @ ''1,2,3'' @ [CHR 0x0A]) \<and>
   plain_reader (''a,b'' @ [CHR 0x0A] @ ''1,2,3'' @ [CHR 0x0A]) =
     [Row [''a'', ''b''], Row [''1'', ''2'', ''3'']] \<and>
   dialogs (snd (App_cache_headers plain_reader ''ragged.csv'' (demo_app, demo_world_csv))) =
     [ShowError ''Header Cache Error'' (KeyError None)] \<and>
   cached_headers demo_app = [''Sale Price'', ''GLA'', ''Lot Size''] \<and>
   cached_headers (fst (App_cache_headers plain_reader ''ragged.csv'' (demo_app, demo_world_csv))) =
     [''a'', ''b''] \<and>
   headers_samples (fst (App_cache_headers plain_reader ''ragged.csv'' (demo_app, demo_world_csv))) =
     headers_samples demo_app"
  by code_simp

text \<open>Sampling: the row dict of a row that fits the header, and what the loop collects.\<close>

lemma foldl_dict_set_fresh:
  "distinct (map fst (acc @ kvs)) \<Longrightarrow>
     foldl (\<lambda>d (k, v). dict_set d k v) acc kvs = acc @ kvs"
proof (induction kvs arbitrary: acc)
  case Nil
  show ?case by simp
next
  case (Cons kv kvs)
  obtain k v where kv: "kv = (k, v)" by (cases kv)
  from Cons.prems kv have f: "k \<notin> set (map fst acc)" by auto
  from Cons.prems kv have d: "distinct (map fst ((acc @ [(k, v)]) @ kvs))" by auto
  from Cons.IH [OF d] f kv show ?case
    by (simp add: dict_set_def alist_update_fresh)
qed

lemma dict_of_distinct: "distinct (map fst kvs) \<Longrightarrow> dict_of kvs = kvs"
  using foldl_dict_set_fresh [of "[]" kvs] by (simp add: dict_of_def)

lemma foldl_restval_fresh:
  "distinct (map fst acc @ map Some ks) \<Longrightarrow>
     foldl (\<lambda>d key. dict_set d (Some key) NoCell) acc ks = acc @ map (\<lambda>k. (Some k, NoCell)) ks"
proof (induction ks arbitrary: acc)
  case Nil
  show ?case by simp
next
  case (Cons k ks)
  from Cons.prems have f: "Some k \<notin> set (map fst acc)" by auto
  from Cons.prems have d: "distinct (map fst (acc @ [(Some k, NoCell)]) @ map Some ks)" by auto
  from Cons.IH [OF d] f show ?case
    by (simp add: dict_set_def alist_update_fresh)
qed

lemma zip_restval:
  "zip (map Some ks) (replicate (length ks) NoCell) = map (\<lambda>k. (Some k, NoCell)) ks"
  by (induction ks) auto

lemma zip_take_left: "zip xs ys = zip (take (length ys) xs) ys"
proof (induction xs arbitrary: ys)
  case Nil
  show ?case by simp
next
  case (Cons x xs)
  then show ?case by (cases ys) simp_all
qed

lemma dict_row_short:
  assumes "distinct fieldnames" and "length row \<le> length fieldnames"
  shows "dict_row fieldnames row =
     zip (map Some fieldnames) (map Cell row @ replicate (length fieldnames - length row) NoCell)"
proof -
  let ?lr = "length row"
  have t: "zip (map Some fieldnames) (map Cell row) = zip (map Some (take ?lr fieldnames)) (map Cell row)"
    using zip_take_left [of "map Some fieldnames" "map Cell row"] by (simp add: take_map)
  have dk: "distinct (map fst (zip (map Some (take ?lr fieldnames)) (map Cell row)))"
    using assms by (simp add: distinct_map inj_on_def)
  have d0: "dict_of (zip (map Some fieldnames) (map Cell row)) =
      zip (map Some (take ?lr fieldnames)) (map Cell row)"
    using dict_of_distinct [OF dk] t by simp
  have mk: "map fst (zip (map Some (take ?lr fieldnames)) (map Cell row)) = map Some (take ?lr fieldnames)"
    using assms(2) by simp
  have dd: "distinct (map Some (take ?lr fieldnames) @ map Some (drop ?lr fieldnames))"
  proof -
    have "distinct (map Some fieldnames)" using assms(1) by (simp add: distinct_map)
    then show ?thesis by (metis append_take_drop_id map_append)
  qed
  have split: "zip (map Some fieldnames) (map Cell row @ replicate (length fieldnames - ?lr) NoCell) =
      zip (map Some (take ?lr fieldnames)) (map Cell row) @
      zip (map Some (drop ?lr fieldnames)) (replicate (length (drop ?lr fieldnames)) NoCell)"
  proof -
    have "map Some fieldnames = map Some (take ?lr fieldnames) @ map Some (drop ?lr fieldnames)"
      by (metis append_take_drop_id map_append)
    moreover have "length (map Some (take ?lr fieldnames)) = length (map Cell row)"
      using assms(2) by simp
    ultimately show ?thesis by simp
  qed
  show ?thesis
  proof (cases "length fieldnames = ?lr")
    case True
    with d0 show ?thesis by (simp add: dict_row_def Let_def)
  next
    case False
    with assms(2) have gt: "length fieldnames > ?lr" by simp
    have "foldl (\<lambda>d key. dict_set d (Some key) NoCell)
            (zip (map Some (take ?lr fieldnames)) (map Cell row)) (drop ?lr fieldnames) =
          zip (map Some (take ?lr fieldnames)) (map Cell row) @
          map (\<lambda>k. (Some k, NoCell)) (drop ?lr fieldnames)"
      using foldl_restval_fresh dd mk by metis
    moreover have "zip (map Some (drop ?lr fieldnames)) (replicate (length fieldnames - ?lr) NoCell) =
        map (\<lambda>k. (Some k, NoCell)) (drop ?lr fieldnames)"
      using zip_restval [of "drop ?lr fieldnames"] by simp
    ultimately show ?thesis using gt d0 split by (simp add: dict_row_def Let_def)
  qed
qed

lemma alist_update_present:
  "distinct (map fst d) \<Longrightarrow> map_of d k = Some vs \<Longrightarrow>
     AList.update k (f vs) d = map (\<lambda>(k', l). (k', if k' = k then f l else l)) d"
proof (induction d)
  case Nil
  then show ?case by simp
next
  case (Cons p d)
  obtain k' l where p: "p = (k', l)" by (cases p)
  show ?case
  proof (cases "k' = k")
    case True
    with Cons.prems p have "l = vs" by simp
    moreover have "map (\<lambda>(k', l). (k', if k' = k then f l else l)) d = d"
    proof (rule map_idI)
      fix x assume x: "x \<in> set d"
      with Cons.prems(1) p True have "fst x \<noteq> k" by (auto simp: image_iff)
      then show "(case x of (k', l) \<Rightarrow> (k', if k' = k then f l else l)) = x" by (cases x) simp
    qed
    ultimately show ?thesis using p True by simp
  next
    case False
    with Cons p show ?thesis by simp
  qed
qed

lemma append_samples_zip:
  "distinct (map fst samples) \<Longrightarrow> length cells = length ks \<Longrightarrow> distinct ks \<Longrightarrow>
   set ks \<subseteq> set (map fst samples) \<Longrightarrow>
     append_samples (zip (map Some ks) cells) samples =
       Inr (map (\<lambda>(k, l). (k, case map_of (zip ks cells) k of
                                None \<Rightarrow> l | Some c \<Rightarrow> l @ [cell_str c])) samples)"
proof (induction ks arbitrary: cells samples)
  case Nil
  then show ?case by simp
next
  case (Cons k ks)
  from Cons.prems(2) obtain c cs where cells: "cells = c # cs" and len: "length cs = length ks"
    by (cases cells) auto
  from Cons.prems(4) have "k \<in> set (map fst samples)" by simp
  then obtain vs where vs: "map_of samples k = Some vs"
    by (metis domD dom_map_of_conv_image_fst set_map)
  let ?s1 = "map (\<lambda>(k', l). (k', if k' = k then l @ [cell_str c] else l)) samples"
  have u: "dict_set samples k (vs @ [cell_str c]) = ?s1"
    using alist_update_present [OF Cons.prems(1) vs, of "\<lambda>l. l @ [cell_str c]"]
    by (simp add: dict_set_def)
  have k1: "map fst ?s1 = map fst samples" by (induction samples) auto
  have d1: "distinct (map fst ?s1)" by (simp only: k1 Cons.prems(1))
  have "set ks \<subseteq> set (map fst samples)" using Cons.prems(4) by simp
  then have s1: "set ks \<subseteq> set (map fst ?s1)" by (simp only: k1)
  have dk: "distinct ks" using Cons.prems(3) by simp
  have nk: "map_of (zip ks cs) k = None"
    using Cons.prems(3) len by simp
  have step: "append_samples (zip (map Some (k # ks)) cells) samples =
      append_samples (zip (map Some ks) cs) ?s1"
    using vs u cells by (simp add: dict_get_def)
  have comp: "map (\<lambda>(k', l). (k', case map_of (zip ks cs) k' of
                                None \<Rightarrow> l | Some c' \<Rightarrow> l @ [cell_str c'])) ?s1 =
      map (\<lambda>(k', l). (k', case map_of (zip (k # ks) cells) k' of
                                None \<Rightarrow> l | Some c' \<Rightarrow> l @ [cell_str c'])) samples"
    using nk cells by (auto simp: comp_def split: option.splits)
  from Cons.IH [OF d1 len dk s1] step comp show ?case by simp
qed

lemma map_by_index: "map g xs = map (\<lambda>j. g (xs ! j)) [0..<length xs]"
proof -
  have "map g xs = map g (map (\<lambda>j. xs ! j) [0..<length xs])" by (simp only: map_nth)
  then show ?thesis by (simp add: comp_def)
qed

lemma append_samples_row:
  assumes "distinct hdr" and "length r \<le> length hdr"
  shows "append_samples (dict_row hdr r) (map (\<lambda>j. (hdr ! j, f j)) [0..<length hdr]) =
     Inr (map (\<lambda>j. (hdr ! j, f j @ [if j < length r then r ! j else []])) [0..<length hdr])"
proof -
  let ?cells = "map Cell r @ replicate (length hdr - length r) NoCell"
  let ?samples = "map (\<lambda>j. (hdr ! j, f j)) [0..<length hdr]"
  have keys: "map fst ?samples = hdr"
    by (simp add: comp_def map_nth)
  have len: "length ?cells = length hdr" using assms(2) by simp
  have d: "distinct (map fst ?samples)" by (simp only: keys assms(1))
  have s: "set hdr \<subseteq> set (map fst ?samples)" by (simp only: keys)
  have nth: "map_of (zip hdr ?cells) (hdr ! j) =
      Some (if j < length r then Cell (r ! j) else NoCell)" if "j < length hdr" for j
  proof -
    have "map_of (zip hdr ?cells) (hdr ! j) = Some (?cells ! j)"
      using that len assms(1) by (simp only: map_of_zip_nth)
    moreover have "?cells ! j = (if j < length r then Cell (r ! j) else NoCell)"
      using that assms(2) by (simp add: nth_append)
    ultimately show ?thesis by simp
  qed
  have "map (\<lambda>(k, l). (k, case map_of (zip hdr ?cells) k of
                                None \<Rightarrow> l | Some c \<Rightarrow> l @ [cell_str c])) ?samples =
      map (\<lambda>j. (hdr ! j, f j @ [if j < length r then r ! j else []])) [0..<length hdr]"
    by (simp add: comp_def nth)
  with append_samples_zip [OF d len assms(1) s] dict_row_short [OF assms]
  show ?thesis by simp
qed

lemma sample_rows_rows:
  assumes "distinct hdr"
  shows "unread = [] \<or> 3 - i < length (filter (\<lambda>r. r \<noteq> []) recs) \<Longrightarrow>
     \<forall>r \<in> set (take (3 - i) (filter (\<lambda>r. r \<noteq> []) recs)). length r \<le> length hdr \<Longrightarrow>
     sample_rows i hdr (map Row recs @ unread) (map (\<lambda>j. (hdr ! j, f j)) [0..<length hdr]) =
       Inr (map (\<lambda>j. (hdr ! j,
                     f j @ map (\<lambda>r. if j < length r then r ! j else [])
                             (take (3 - i) (filter (\<lambda>r. r \<noteq> []) recs))))
              [0..<length hdr])"
proof (induction recs arbitrary: i f)
  case Nil
  then show ?case by simp
next
  case (Cons r rs)
  show ?case
  proof (cases "r = []")
    case True
    with Cons show ?thesis by simp
  next
    case False
    show ?thesis
    proof (cases "3 \<le> i")
      case True
      with False show ?thesis by simp
    next
      case i: False
      then have t: "3 - i = Suc (3 - (i + 1))" by simp
      from Cons.prems(2) False t have lr: "length r \<le> length hdr" by simp
      from Cons.prems(1) False i have m: "unread = [] \<or> 3 - (i + 1) < length (filter (\<lambda>r. r \<noteq> []) rs)"
        by auto
      from Cons.prems(2) False t
      have a: "\<forall>r \<in> set (take (3 - (i + 1)) (filter (\<lambda>r. r \<noteq> []) rs)). length r \<le> length hdr"
        by simp
      from Cons.IH [OF m a, of "\<lambda>j. f j @ [if j < length r then r ! j else []]"]
           append_samples_row [OF assms lr, of f] False i t
      show ?thesis by simp
    qed
  qed
qed

text \<open>
  C8, as stated, fails for files that can be read. A data row that ends with a comma has
  one cell more than the header row: \<^verbatim>\<open>samples[None]\<close> raises \<^verbatim>\<open>KeyError\<close> and no
  sample of the file is kept. A header row that names two columns alike gives one list of
  samples for both, which holds the cells of the later column only.
\<close>

theorem cache_headers_not_sampled:
  "plain_reader (''a,b'' @ [CHR 0x0A] @ ''1,2,'' @ [CHR 0x0A]) =
     [Row [''a'', ''b''], Row [''1'', ''2'', []]] \<and>
   dialogs (snd (App_cache_headers plain_reader ''comma.csv'' (demo_app, demo_world_csv))) =
     [ShowError ''Header Cache Error'' (KeyError None)] \<and>
   headers_samples (fst (App_cache_headers plain_reader ''comma.csv'' (demo_app, demo_world_csv))) =
     [(''Sale Price'', [''100'']), (''GLA'', [''1'']), (''Lot Size'', [''2''])] \<and>
   plain_reader (''a,a'' @ [CHR 0x0A] @ ''1,2'' @ [CHR 0x0A]) =
     [Row [''a'', ''a''], Row [''1'', ''2'']] \<and>
   dialogs (snd (App_cache_headers plain_reader ''twice.csv'' (demo_app, demo_world_csv))) = [] \<and>
   cached_headers (fst (App_cache_headers plain_reader ''twice.csv'' (demo_app, demo_world_csv))) =
     [''a'', ''a''] \<and>
   headers_samples (fst (App_cache_headers plain_reader ''twice.csv'' (demo_app, demo_world_csv))) =
     [(''a'', [''2''])]"
  by code_simp

text \<open>
  C8, amended. Let the file at the path be openable and hold a text, with or without a
  byte-order mark in front, that the reader reads as a header row of distinct names
  followed by records, and let every read succeed up to and including the fourth data row
  (a data row is a record that is not blank) or up to the end of the file if there are
  fewer; what stands after the fourth data row is not looked at. Let each of the first three
  data rows have at most as many cells as the header row. Then \<^verbatim>\<open>_cache_headers\<close> shows
  no error, the cached headers are the header row (without the byte-order mark), and the
  samples of the column \<open>j\<close> are the cells \<open>j\<close> of the first three data rows in file order
  (of all data rows when there are fewer than three), with the empty string for a row that
  has no cell \<open>j\<close>: every column has as many samples as there are sampled rows.
\<close>

theorem cache_headers_samples:
  assumes "csv_at w path = Inr (bom @ text)"
    and "bom = BOM \<or> (bom = [] \<and> take 3 text \<noteq> BOM)"
    and "reader text = Row hdr # map Row recs @ unread"
    and "distinct hdr"
    and "unread = [] \<or> 3 < length (filter (\<lambda>r. r \<noteq> []) recs)"
    and "\<forall>r \<in> set (take 3 (filter (\<lambda>r. r \<noteq> []) recs)). length r \<le> length hdr"
  shows "App_cache_headers reader path (a, w) =
      (a\<lparr>cached_headers := hdr,
         headers_samples :=
           map (\<lambda>j. (hdr ! j, map (\<lambda>r. if j < length r then r ! j else [])
                                (take 3 (filter (\<lambda>r. r \<noteq> []) recs))))
             [0..<length hdr]\<rparr>, w) \<and>
    (\<forall>(h, vs) \<in> set (headers_samples (fst (App_cache_headers reader path (a, w)))).
       length vs = min 3 (length (filter (\<lambda>r. r \<noteq> []) recs)))"
proof -
  have dec: "decode_utf_8_sig (bom @ text) = text"
    using assms(2) by (auto simp: decode_utf_8_sig_def BOM_def)
  have init: "dict_of (map (\<lambda>h. (h, [] :: string list)) hdr) =
      map (\<lambda>j. (hdr ! j, [])) [0..<length hdr]"
  proof -
    have "distinct (map fst (map (\<lambda>h. (h, [] :: string list)) hdr))"
      using assms(4) by (simp add: comp_def)
    from dict_of_distinct [OF this]
    have "dict_of (map (\<lambda>h. (h, [] :: string list)) hdr) = map (\<lambda>h. (h, [])) hdr" .
    also have "\<dots> = map (\<lambda>j. (hdr ! j, [])) [0..<length hdr]"
      by (rule map_by_index)
    finally show ?thesis .
  qed
  have loop: "sample_rows 0 hdr (map Row recs @ unread) (map (\<lambda>j. (hdr ! j, [])) [0..<length hdr]) =
      Inr (map (\<lambda>j. (hdr ! j, map (\<lambda>r. if j < length r then r ! j else [])
                                (take 3 (filter (\<lambda>r. r \<noteq> []) recs))))
             [0..<length hdr])"
    using sample_rows_rows [OF assms(4), of unread 0 recs "\<lambda>j. []"] assms(5) assms(6) by simp
  have eq: "App_cache_headers reader path (a, w) =
      (a\<lparr>cached_headers := hdr,
         headers_samples :=
           map (\<lambda>j. (hdr ! j, map (\<lambda>r. if j < length r then r ! j else [])
                                (take 3 (filter (\<lambda>r. r \<noteq> []) recs))))
             [0..<length hdr]\<rparr>, w)"
    using assms(1) assms(3) dec init loop by (simp add: App_cache_headers_def Let_def)
  show ?thesis unfolding eq by (auto simp: min_def)
qed

theorem cache_headers_samples_witness:
  "cached_headers (fst (App_cache_headers plain_reader ''five.csv'' (demo_app, demo_world_csv))) =
     [''a'', ''b''] \<and>
   headers_samples (fst (App_cache_headers plain_reader ''five.csv'' (demo_app, demo_world_csv))) =
     [(''a'', [''1'', ''3'', ''4'']), (''b'', [''2'', [], ''5''])] \<and>
   dialogs (snd (App_cache_headers plain_reader ''five.csv'' (demo_app, demo_world_csv))) = []"
proof -
  let ?text = "''a,b'' @ [CHR 0x0A] @ ''1,2'' @ [CHR 0x0A] @ [CHR 0x0A] @ ''3'' @ [CHR 0x0A]
                 @ ''4,5'' @ [CHR 0x0A] @ ''6,7'' @ [CHR 0x0A] @ ''8,9'' @ [CHR 0x0A]"
  let ?recs = "[[''1'', ''2''], [], [''3''], [''4'', ''5''], [''6'', ''7'']]"
  have f: "csv_at demo_world_csv ''five.csv'' = Inr (BOM @ ?text)"
    by (simp add: demo_world_csv_def demo_world_def)
  have b: "BOM = BOM \<or> (BOM = [] \<and> take 3 ?text \<noteq> BOM)" by simp
  have r: "plain_reader ?text = Row [''a'', ''b''] # map Row ?recs @ [Row [''8'', ''9'']]"
    by code_simp
  have d: "distinct [''a'', ''b'']" by simp
  have e: "[Row [''8'', ''9'']] = [] \<or> 3 < length (filter (\<lambda>r. r \<noteq> []) ?recs)" by simp
  have l: "\<forall>r \<in> set (take 3 (filter (\<lambda>r. r \<noteq> []) ?recs)). length r \<le> length [''a'', ''b'']"
    by simp
  have u: "[0..<length [''a'', ''b'']] = [0, 1]" by (simp add: upt_rec)
  from cache_headers_samples [of demo_world_csv "''five.csv''" BOM ?text plain_reader
         "[''a'', ''b'']" ?recs "[Row [''8'', ''9'']]" demo_app, OF f b r d e l] u
  show ?thesis
    by (simp add: demo_world_csv_def demo_world_def)
qed

end
